theory Spec2Isabelle
  imports Main "HOL-Library.Word" "HOL-Library.Multiset"
begin

section \<open>Job store data model (package jobsdb, as used by the stash and the router)\<close>

text \<open>
  Go's \<open>int\<close> (on the 64-bit targets the server is built for) and \<open>int64\<close> are 64-bit
  two's complement integers whose arithmetic wraps around: they are \<open>64 word\<close>, compared
  with the signed orders \<open>\<le>s\<close> and \<open><s\<close> and read with \<open>sint\<close>.
  A \<open>time.Time\<close> is an instant on an integer time line, a \<open>time.Duration\<close> a difference
  of instants. A Go \<open>error\<close> is \<open>None\<close> for \<open>nil\<close> and \<open>Some msg\<close> otherwise.
\<close>

type_synonym int64 = "64 word"
type_synonym time = int
type_synonym go_error = "string option"

text \<open>The job states of the state machine (jobsdb.Executing.State, jobsdb.Succeeded.State, ...).\<close>

datatype job_state = NotPicked | Executing | Succeeded | Failed | Aborted | Waiting | Throttled

record JobStatusT =
  JobID :: int64
  AttemptNum :: int64
  JobState :: job_state
  ExecTime :: time
  RetryTime :: time
  ErrorCode :: string
  ErrorResponse :: string
  Parameters :: string
  WorkspaceId :: string

record JobT =
  UUID :: string
  UserID :: string
  Customer :: string
  JobID :: int64
  CreatedAt :: time
  ExpireAt :: time
  CustomVal :: string
  EventPayload :: string
  LastJobStatus :: JobStatusT
  Parameters :: string
  WorkspaceId :: string

record GetQueryParamsT =
  CustomValFilters :: "string list"
  IgnoreCustomValFiltersInQuery :: bool
  JobsLimit :: int64
  PayloadSizeLimit :: int64

record JobsResult =
  Jobs :: "JobT list"
  LimitsReached :: bool
  PayloadSize :: int64

text \<open>
  A Go panic is a value: an index out of range, the dereference of a nil pointer, or
  \<open>panic(v)\<close> with the message of the error or the string it is called with.
\<close>

datatype panic = IndexOutOfRange | NilDereference | PanicErr string

section \<open>Per-customer queues (jobsdb/datamanager.go)\<close>

text \<open>
  A \<open>JobsDB\<close> is known by a name. What a run does to the job stores is the list of its
  \<open>Store\<close> calls on them, each with the store and the jobs passed.
\<close>

type_synonym JobsDB = string

type_synonym store_call = \<open>JobsDB \<times> JobT list\<close>

text \<open>
  Modelled from the spec: the \<open>JobsDB\<close> interface's own \<open>Store([]Job)\<close> is not among
  the sources; the spec lists it in the job store interface of the error-stash path. A
  call of it is recorded after the calls made so far, and returns.
\<close>

definition JobsDB_Store :: \<open>JobsDB \<Rightarrow> JobT list \<Rightarrow> store_call list \<Rightarrow> store_call list\<close> where
  \<open>JobsDB_Store db list calls = calls @ [(db, list)]\<close>

record CustomerQueue =
  GatewayJobsdb :: JobsDB
  RouterJobsdb :: JobsDB
  BatchrouterJobsddb :: JobsDB
  ProcerrorJobsdb :: JobsDB

text \<open>
  \<open>getQueueForCustomer\<close>, given the package variable \<open>customerQueues\<close>. A customer
  that is not in the map yields a nil \<open>*CustomerQueue\<close>, whose field cannot be read.
\<close>

definition getQueueForCustomer ::
  \<open>(string \<rightharpoonup> CustomerQueue) \<Rightarrow> string \<Rightarrow> string \<Rightarrow> panic + JobsDB\<close> where
  \<open>getQueueForCustomer customerQueues customer queue =
     (let customerQueue = customerQueues customer
      in if queue = ''gw'' then
           (case customerQueue of None \<Rightarrow> Inl NilDereference | Some q \<Rightarrow> Inr (GatewayJobsdb q))
         else if queue = ''rt'' then
           (case customerQueue of None \<Rightarrow> Inl NilDereference | Some q \<Rightarrow> Inr (RouterJobsdb q))
         else if queue = ''batch_rt'' then
           (case customerQueue of None \<Rightarrow> Inl NilDereference
            | Some q \<Rightarrow> Inr (BatchrouterJobsddb q))
         else if queue = ''proc_error'' then
           (case customerQueue of None \<Rightarrow> Inl NilDereference | Some q \<Rightarrow> Inr (ProcerrorJobsdb q))
         else Inl (PanicErr ''Unknow queue''))\<close>

text \<open>\<open>StoreJobsForCustomer\<close>: the call on the customer's queue; it returns nil.\<close>

definition StoreJobsForCustomer ::
  \<open>(string \<rightharpoonup> CustomerQueue) \<Rightarrow> string \<Rightarrow> string \<Rightarrow> JobT list \<Rightarrow> store_call list \<Rightarrow>
   panic + go_error \<times> store_call list\<close> where
  \<open>StoreJobsForCustomer customerQueues customer queue list calls =
     (case getQueueForCustomer customerQueues customer queue of
        Inl p \<Rightarrow> Inl p
      | Inr db \<Rightarrow> Inr (None, JobsDB_Store db list calls))\<close>

text \<open>The first loop of \<open>Store\<close>: the jobs of each customer, in the order of the list.\<close>

fun groupByCustomer :: \<open>JobT list \<Rightarrow> (string \<rightharpoonup> JobT list) \<Rightarrow> (string \<rightharpoonup> JobT list)\<close> where
  \<open>groupByCustomer [] customerJobListMap = customerJobListMap\<close>
| \<open>groupByCustomer (job # jobs) customerJobListMap =
     (let m = (case customerJobListMap (Customer job) of
                 None \<Rightarrow> customerJobListMap(Customer job \<mapsto> [])
               | Some l \<Rightarrow> customerJobListMap)
      in groupByCustomer jobs
           (m(Customer job \<mapsto> (case m (Customer job) of None \<Rightarrow> [] | Some l \<Rightarrow> l) @ [job])))\<close>

text \<open>
  The second loop of \<open>Store\<close>, \<open>for customer, list := range customerJobListMap\<close>.
  Go leaves the order of a map's keys open: \<open>order\<close> is the order this run takes them
  in, each key of the map once (a name that is not a key is passed over). A panic ends
  the loop.
\<close>

fun storeRange ::
  \<open>(string \<rightharpoonup> CustomerQueue) \<Rightarrow> string \<Rightarrow> (string \<rightharpoonup> JobT list) \<Rightarrow> string list \<Rightarrow>
   store_call list \<Rightarrow> panic + store_call list\<close> where
  \<open>storeRange customerQueues queue customerJobListMap [] calls = Inr calls\<close>
| \<open>storeRange customerQueues queue customerJobListMap (customer # order) calls =
     (case customerJobListMap customer of
        None \<Rightarrow> storeRange customerQueues queue customerJobListMap order calls
      | Some list \<Rightarrow>
          (case StoreJobsForCustomer customerQueues customer queue list calls of
             Inl p \<Rightarrow> Inl p
           | Inr (err, calls') \<Rightarrow>
               storeRange customerQueues queue customerJobListMap order calls'))\<close>

definition Store ::
  \<open>(string \<rightharpoonup> CustomerQueue) \<Rightarrow> string list \<Rightarrow> JobT list \<Rightarrow> string \<Rightarrow>
   panic + go_error \<times> store_call list\<close> where
  \<open>Store customerQueues order jobList queue =
     (let customerJobListMap = groupByCustomer jobList Map.empty
      in case storeRange customerQueues queue customerJobListMap order [] of
           Inl p \<Rightarrow> Inl p
         | Inr calls \<Rightarrow> Inr (None, calls))\<close>

text \<open>Sample values: two customers with queues of their own.\<close>

definition exampleQueues :: \<open>string \<rightharpoonup> CustomerQueue\<close> where
  \<open>exampleQueues =
     [''acme'' \<mapsto> \<lparr> GatewayJobsdb = ''acme/gw'', RouterJobsdb = ''acme/rt'',
                      BatchrouterJobsddb = ''acme/batch_rt'', ProcerrorJobsdb = ''acme/proc_error'' \<rparr>,
      ''beta'' \<mapsto> \<lparr> GatewayJobsdb = ''beta/gw'', RouterJobsdb = ''beta/rt'',
                      BatchrouterJobsddb = ''beta/batch_rt'', ProcerrorJobsdb = ''beta/proc_error'' \<rparr>]\<close>

definition customerJob :: \<open>string \<Rightarrow> int64 \<Rightarrow> JobT\<close> where
  \<open>customerJob customer jobId =
     \<lparr> UUID = ''5c1bd7e2'', UserID = ''u1'', Customer = customer, JobT.JobID = jobId,
       CreatedAt = 0, ExpireAt = 0, CustomVal = ''GA'', EventPayload = ''{}'',
       LastJobStatus =
         \<lparr> JobStatusT.JobID = jobId, AttemptNum = 0, JobState = NotPicked, ExecTime = 0,
           RetryTime = 0, ErrorCode = [], ErrorResponse = ''{}'',
           JobStatusT.Parameters = ''{}'', JobStatusT.WorkspaceId = customer \<rparr>,
       JobT.Parameters = ''{}'', JobT.WorkspaceId = customer \<rparr>\<close>

section \<open>Error stash (processor/stash/stash.go)\<close>

text \<open>The package-level configuration variables registered by \<open>loadConfig\<close>.\<close>

record stash_config =
  errorStashEnabled :: bool
  errDBReadBatchSize :: int64
  maxFailedCountForErrJob :: int64
  payloadLimit :: int64

record StoreErrorOutputT =
  Location :: string
  Error :: go_error

subsection \<open>setErrJobStatus\<close>

text \<open>
  The body of the \<open>for _, job := range jobs\<close> loop of \<open>setErrJobStatus\<close>: the status row
  built for one job. \<open>jsonString\<close> is encoding/json's rendering of a Go string as a JSON
  string literal, so that \<open>json.Marshal(struct{ Error string }{msg})\<close> is
  \<open>{"Error":\<close> followed by that literal and \<open>}\<close>; marshalling a struct of one string
  never fails. Both \<open>time.Now()\<close> readings of one row are the reading \<open>now\<close>.
\<close>

definition errJobStatus ::
  \<open>stash_config \<Rightarrow> (string \<Rightarrow> string) \<Rightarrow> time \<Rightarrow> StoreErrorOutputT \<Rightarrow> JobT \<Rightarrow> JobStatusT\<close> where
  \<open>errJobStatus cfg jsonString now output job =
     (let (state, errorResp) =
            (case Error output of
               None \<Rightarrow> (Succeeded, ''{"success":"OK"}'')
             | Some msg \<Rightarrow>
                 (if maxFailedCountForErrJob cfg \<le>s AttemptNum (LastJobStatus job)
                  then Aborted else Failed,
                  ''{"Error":'' @ jsonString msg @ ''}''))
      in \<lparr> JobStatusT.JobID = JobT.JobID job,
           AttemptNum = AttemptNum (LastJobStatus job) + 1,
           JobState = state,
           ExecTime = now,
           RetryTime = now,
           ErrorCode = [],
           ErrorResponse = errorResp,
           JobStatusT.Parameters = ''{}'',
           JobStatusT.WorkspaceId = JobT.WorkspaceId job \<rparr>)\<close>

text \<open>The loop itself: \<open>statusList = append(statusList, &status)\<close> for each job in order.\<close>

fun setErrJobStatus_loop ::
  \<open>stash_config \<Rightarrow> (string \<Rightarrow> string) \<Rightarrow> time \<Rightarrow> StoreErrorOutputT \<Rightarrow> JobT list \<Rightarrow>
   JobStatusT list \<Rightarrow> JobStatusT list\<close> where
  \<open>setErrJobStatus_loop cfg jsonString now output [] statusList = statusList\<close>
| \<open>setErrJobStatus_loop cfg jsonString now output (job # jobs) statusList =
     setErrJobStatus_loop cfg jsonString now output jobs
       (statusList @ [errJobStatus cfg jsonString now output job])\<close>

text \<open>
  \<open>setErrJobStatus\<close>: builds the rows and writes them with \<open>errorDB.UpdateJobStatus\<close>
  under \<open>misc.RetryWith\<close>; \<open>updateJobStatus\<close> is the outcome of that retried write for a
  given list of rows. An error left after the retries panics. The value returned on
  success is the list of rows appended to the job store.
\<close>

definition setErrJobStatus ::
  \<open>stash_config \<Rightarrow> (string \<Rightarrow> string) \<Rightarrow> (JobStatusT list \<Rightarrow> go_error) \<Rightarrow> time \<Rightarrow>
   JobT list \<Rightarrow> StoreErrorOutputT \<Rightarrow> panic + JobStatusT list\<close> where
  \<open>setErrJobStatus cfg jsonString updateJobStatus now jobs output =
     (let statusList = setErrJobStatus_loop cfg jsonString now output jobs []
      in case updateJobStatus statusList of
           Some err \<Rightarrow> Inl (PanicErr err)
         | None \<Rightarrow> Inr statusList)\<close>

subsection \<open>readErrJobsLoop\<close>

text \<open>
  What one pass of the loop body reads from its collaborators: the two job store queries
  (each already wrapped in \<open>QueryJobsResultWithRetries\<close>, so \<open>Inl\<close> is the error left
  after the retries), \<open>jobsdb.IsMasterBackupEnabled()\<close>, whether
  \<open>st.getFileUploader(ctx)\<close> is non-nil, the outcome of the retried
  \<open>UpdateJobStatus\<close>, and the clock.
\<close>

record tick =
  getToRetry :: \<open>GetQueryParamsT \<Rightarrow> string + JobsResult\<close>
  getUnprocessed :: \<open>GetQueryParamsT \<Rightarrow> string + JobsResult\<close>
  isMasterBackupEnabled :: bool
  fileUploaderPresent :: bool
  updateJobStatus :: \<open>JobStatusT list \<Rightarrow> go_error\<close>
  clock :: time

definition backupEnabled :: \<open>stash_config \<Rightarrow> tick \<Rightarrow> bool\<close> where
  \<open>backupEnabled cfg t = (errorStashEnabled cfg \<and> isMasterBackupEnabled t)\<close>

text \<open>
  Lines 254 to 282: the jobs to retry, followed by the unprocessed jobs when the first
  query did not reach its limits. \<open>queryParams.JobsLimit -= len(toRetry.Jobs)\<close> is Go
  \<open>int\<close> arithmetic.
\<close>

definition readCombinedList :: \<open>stash_config \<Rightarrow> tick \<Rightarrow> panic + JobT list\<close> where
  \<open>readCombinedList cfg t =
     (let queryParams =
            \<lparr> CustomValFilters = [[]],
              IgnoreCustomValFiltersInQuery = True,
              JobsLimit = errDBReadBatchSize cfg,
              PayloadSizeLimit = payloadLimit cfg \<rparr>
      in case getToRetry t queryParams of
           Inl err \<Rightarrow> Inl (PanicErr err)
         | Inr toRetry \<Rightarrow>
             if \<not> LimitsReached toRetry then
               (let queryParams1 =
                      queryParams\<lparr> JobsLimit :=
                        JobsLimit queryParams - word_of_nat (length (Jobs toRetry)) \<rparr>;
                    queryParams2 =
                      (if 0 <s PayloadSizeLimit queryParams1
                       then queryParams1\<lparr> PayloadSizeLimit :=
                              PayloadSizeLimit queryParams1 - PayloadSize toRetry \<rparr>
                       else queryParams1)
                in case getUnprocessed t queryParams2 of
                     Inl err \<Rightarrow> Inl (PanicErr err)
                   | Inr unprocessed \<Rightarrow> Inr (Jobs toRetry @ Jobs unprocessed))
             else Inr (Jobs toRetry))\<close>

text \<open>
  Lines 305 to 328: the \<open>for _, job := range combinedList\<close> loop, threading
  \<open>filteredJobList\<close> and \<open>statusList\<close>. \<open>applyJob\<close> is \<open>st.transientSource.ApplyJob\<close>.
\<close>

fun readErrJobs_loop ::
  \<open>bool \<Rightarrow> (JobT \<Rightarrow> bool) \<Rightarrow> job_state \<Rightarrow> time \<Rightarrow> JobT list \<Rightarrow>
   JobT list \<times> JobStatusT list \<Rightarrow> JobT list \<times> JobStatusT list\<close> where
  \<open>readErrJobs_loop canUpload applyJob jobState now [] (filteredJobList, statusList) =
     (filteredJobList, statusList)\<close>
| \<open>readErrJobs_loop canUpload applyJob jobState now (job # jobs) (filteredJobList, statusList) =
     (let status =
            \<lparr> JobStatusT.JobID = JobT.JobID job,
              AttemptNum = AttemptNum (LastJobStatus job) + 1,
              JobState = jobState,
              ExecTime = now,
              RetryTime = now,
              ErrorCode = [],
              ErrorResponse = ''{}'',
              JobStatusT.Parameters = ''{}'',
              JobStatusT.WorkspaceId = JobT.WorkspaceId job \<rparr>
      in if canUpload then
           (if applyJob job then
              readErrJobs_loop canUpload applyJob jobState now jobs
                (filteredJobList, statusList @ [status\<lparr> JobState := Aborted \<rparr>])
            else
              readErrJobs_loop canUpload applyJob jobState now jobs
                (filteredJobList @ [job], statusList @ [status]))
         else
           readErrJobs_loop canUpload applyJob jobState now jobs
             (filteredJobList, statusList @ [status]))\<close>

text \<open>
  What one pass did: the rows handed to \<open>UpdateJobStatus\<close> (\<open>None\<close> when the pass
  ended at \<open>continue\<close> before any write) and the batch sent on \<open>errProcessQ\<close>
  (\<open>None\<close> when nothing was sent).
\<close>

record pass_result =
  written :: \<open>JobStatusT list option\<close>
  sent :: \<open>JobT list option\<close>

text \<open>Lines 286 to 339, for a given \<open>combinedList\<close>.\<close>

definition markErrJobs ::
  \<open>stash_config \<Rightarrow> (JobT \<Rightarrow> bool) \<Rightarrow> tick \<Rightarrow> JobT list \<Rightarrow> panic + pass_result\<close> where
  \<open>markErrJobs cfg applyJob t combinedList =
     (if length combinedList = 0 then Inr \<lparr> written = None, sent = None \<rparr>
      else
        (let canUpload = (backupEnabled cfg t \<and> fileUploaderPresent t);
             jobState = (if \<not> canUpload then Aborted else Executing);
             filteredJobList0 = (if \<not> canUpload then combinedList else []);
             (filteredJobList, statusList) =
               readErrJobs_loop canUpload applyJob jobState (clock t) combinedList
                 (filteredJobList0, [])
         in case updateJobStatus t statusList of
              Some err \<Rightarrow> Inl (PanicErr err)
            | None \<Rightarrow>
                Inr \<lparr> written = Some statusList,
                      sent = (if canUpload \<and> 0 < length filteredJobList
                              then Some filteredJobList else None) \<rparr>))\<close>

definition readErrJobsPass ::
  \<open>stash_config \<Rightarrow> (JobT \<Rightarrow> bool) \<Rightarrow> tick \<Rightarrow> panic + pass_result\<close> where
  \<open>readErrJobsPass cfg applyJob t =
     (case readCombinedList cfg t of
        Inl p \<Rightarrow> Inl p
      | Inr combinedList \<Rightarrow> markErrJobs cfg applyJob t combinedList)\<close>

text \<open>
  The \<open>for { select { ... } }\<close> loop over what the select receives: the context's
  cancellation, or the timer with what that pass reads. The loop ends by closing the
  channel, or by a panic; a run whose events are used up is still waiting in the select.
  The result lists every batch sent on \<open>errProcessQ\<close>, in order.
\<close>

datatype stash_event = CtxDone | Tick tick

datatype loop_end = ChannelClosed | Panicked panic | StillWaiting

fun readErrJobsLoop ::
  \<open>stash_config \<Rightarrow> (JobT \<Rightarrow> bool) \<Rightarrow> stash_event list \<Rightarrow> JobT list list \<times> loop_end\<close> where
  \<open>readErrJobsLoop cfg applyJob [] = ([], StillWaiting)\<close>
| \<open>readErrJobsLoop cfg applyJob (CtxDone # es) = ([], ChannelClosed)\<close>
| \<open>readErrJobsLoop cfg applyJob (Tick t # es) =
     (case readErrJobsPass cfg applyJob t of
        Inl p \<Rightarrow> ([], Panicked p)
      | Inr r \<Rightarrow>
          (let (batches, e) = readErrJobsLoop cfg applyJob es
           in (case sent r of None \<Rightarrow> batches | Some jobs \<Rightarrow> jobs # batches, e)))\<close>

subsection \<open>storeErrorsToObjectStorage\<close>

text \<open>
  \<open>fmt\<close>'s \<open>%v\<close> of an integer is its decimal numeral, with a minus sign when negative.
\<close>

definition digitChar :: \<open>nat \<Rightarrow> char\<close> where
  \<open>digitChar d = ''0123456789'' ! d\<close>

fun formatNat :: \<open>nat \<Rightarrow> string\<close> where
  \<open>formatNat n =
     (if n < 10 then [digitChar n] else formatNat (n div 10) @ [digitChar (n mod 10)])\<close>

definition formatInt64 :: \<open>int64 \<Rightarrow> string\<close> where
  \<open>formatInt64 w =
     (if sint w < 0 then CHR ''-'' # formatNat (nat (- sint w)) else formatNat (nat (sint w)))\<close>

text \<open>
  Modelled from the spec: \<open>config.GetEnv\<close> is not among the sources; the spec lists
  \<open>INSTANCE_ID\<close> among the optional environment variables, so a variable that is not
  set reads as the default the caller passes.
\<close>

definition GetEnv :: \<open>(string \<Rightarrow> string option) \<Rightarrow> string \<Rightarrow> string \<Rightarrow> string\<close> where
  \<open>GetEnv environ key defaultVal = (case environ key of Some v \<Rightarrow> v | None \<Rightarrow> defaultVal)\<close>

text \<open>
  The file system and the uploader, as the function's effects, in the order performed.
  \<open>CreateGZ\<close> is \<open>misc.CreateGZ\<close>, which creates a file written through a gzip
  writer; \<open>WriteGZ\<close> and \<open>CloseGZ\<close> are that writer's \<open>Write\<close> and \<open>CloseGZ\<close>.
\<close>

datatype fs_op =
    MkdirAll string
  | CreateGZ string
  | WriteGZ string string
  | CloseGZ string
  | Open string
  | Upload string \<open>string list\<close>
  | Remove string

text \<open>
  What the function reads from its collaborators: \<open>uuid.NewV4()\<close> (the UUID in its
  textual form), \<open>misc.CreateTMPDIR()\<close>, \<open>time.Now().Unix()\<close>, the process
  environment, \<open>filepath.Dir\<close>, the outcome of each file operation,
  \<open>json.Marshal\<close> of a job, \<open>time.Now().Format("01-02-2006")\<close>, and the file
  manager's \<open>Upload\<close> (the uploaded location and the error).
\<close>

record store_env =
  newV4 :: \<open>string + string\<close>
  createTMPDIR :: \<open>string + string\<close>
  unixNow :: int64
  environ :: \<open>string \<Rightarrow> string option\<close>
  filepathDir :: \<open>string \<Rightarrow> string\<close>
  mkdirAll :: \<open>string \<Rightarrow> go_error\<close>
  createGZ :: \<open>string \<Rightarrow> go_error\<close>
  marshalJob :: \<open>JobT \<Rightarrow> string + string\<close>
  writeGZ :: \<open>string \<Rightarrow> string \<Rightarrow> go_error\<close>
  closeGZ :: \<open>string \<Rightarrow> go_error\<close>
  openFile :: \<open>string \<Rightarrow> go_error\<close>
  dateNow :: string
  uploadFile :: \<open>string \<Rightarrow> string list \<Rightarrow> string \<times> go_error\<close>

text \<open>The loop \<open>contentSlice = append(contentSlice, rawJob)\<close>; a marshalling error panics.\<close>

fun marshalJobs ::
  \<open>(JobT \<Rightarrow> string + string) \<Rightarrow> JobT list \<Rightarrow> string list \<Rightarrow> string + string list\<close> where
  \<open>marshalJobs marshal [] contentSlice = Inr contentSlice\<close>
| \<open>marshalJobs marshal (job # jobs) contentSlice =
     (case marshal job of
        Inl err \<Rightarrow> Inl err
      | Inr rawJob \<Rightarrow> marshalJobs marshal jobs (contentSlice @ [rawJob]))\<close>

fun bytesJoin :: \<open>string list \<Rightarrow> string \<Rightarrow> string\<close> where
  \<open>bytesJoin [] sep = []\<close>
| \<open>bytesJoin [x] sep = x\<close>
| \<open>bytesJoin (x # y # ys) sep = x @ sep @ bytesJoin (y # ys) sep\<close>

text \<open>
  Lines 174 to 200, after \<open>defer os.Remove(gzipFilePath)\<close>: the result and the
  operations performed before the deferred removal.
\<close>

definition writeAndUpload ::
  \<open>store_env \<Rightarrow> JobT list \<Rightarrow> string \<Rightarrow> (panic + StoreErrorOutputT) \<times> fs_op list\<close> where
  \<open>writeAndUpload env jobs gzipFilePath =
     (case marshalJobs (marshalJob env) jobs [] of
        Inl err \<Rightarrow> (Inl (PanicErr err), [])
      | Inr contentSlice \<Rightarrow>
          (let content = bytesJoin contentSlice [CHR 0x0A]
           in case writeGZ env gzipFilePath content of
                Some err \<Rightarrow> (Inl (PanicErr err), [WriteGZ gzipFilePath content])
              | None \<Rightarrow>
                  (case closeGZ env gzipFilePath of
                     Some err \<Rightarrow>
                       (Inl (PanicErr err),
                        [WriteGZ gzipFilePath content, CloseGZ gzipFilePath])
                   | None \<Rightarrow>
                       (case openFile env gzipFilePath of
                          Some err \<Rightarrow>
                            (Inl (PanicErr err),
                             [WriteGZ gzipFilePath content, CloseGZ gzipFilePath,
                              Open gzipFilePath])
                        | None \<Rightarrow>
                            (let prefixes = [''rudder-proc-err-logs'', dateNow env];
                                 (location, err) = uploadFile env gzipFilePath prefixes
                             in (Inr \<lparr> Location = location, Error = err \<rparr>,
                                 [WriteGZ gzipFilePath content, CloseGZ gzipFilePath,
                                  Open gzipFilePath, Upload gzipFilePath prefixes]))))))\<close>

text \<open>
  \<open>storeErrorsToObjectStorage\<close>. \<open>jobs[0]\<close> and \<open>jobs[len(jobs)-1]\<close> panic on an empty
  slice. The deferred \<open>os.Remove\<close> runs on return and on a panic alike, once registered.
\<close>

definition storeErrorsToObjectStorage ::
  \<open>store_env \<Rightarrow> JobT list \<Rightarrow> (panic + StoreErrorOutputT) \<times> fs_op list\<close> where
  \<open>storeErrorsToObjectStorage env jobs =
     (let localTmpDirName = ''/rudder-processor-errors/''
      in case newV4 env of
           Inl err \<Rightarrow> (Inl (PanicErr err), [])
         | Inr uuid \<Rightarrow>
             (case createTMPDIR env of
                Inl err \<Rightarrow> (Inl (PanicErr err), [])
              | Inr tmpDirPath \<Rightarrow>
                  if length jobs = 0 then (Inl IndexOutOfRange, [])
                  else
                    (let path =
                           (tmpDirPath @ localTmpDirName) @
                           (formatInt64 (unixNow env) @ ''.'' @
                            GetEnv (environ env) ''INSTANCE_ID'' ''1'' @ ''.'' @
                            (formatInt64 (JobT.JobID (jobs ! 0)) @ ''-'' @
                             formatInt64 (JobT.JobID (jobs ! (length jobs - 1)))) @ ''.'' @
                            uuid) @ ''.json'';
                         gzipFilePath = path @ ''.gz'';
                         dir = filepathDir env gzipFilePath
                     in case mkdirAll env dir of
                          Some err \<Rightarrow> (Inl (PanicErr err), [MkdirAll dir])
                        | None \<Rightarrow>
                            (case createGZ env gzipFilePath of
                               Some err \<Rightarrow>
                                 (Inl (PanicErr err), [MkdirAll dir, CreateGZ gzipFilePath])
                             | None \<Rightarrow>
                                 (let (result, ops) = writeAndUpload env jobs gzipFilePath
                                  in (result,
                                      [MkdirAll dir, CreateGZ gzipFilePath] @ ops @
                                      [Remove gzipFilePath]))))))\<close>

text \<open>
  One worker of \<open>runErrWorkers\<close>, for one batch received from \<open>errProcessQ\<close>: store,
  then set the statuses.
\<close>

definition errWorkerStep ::
  \<open>stash_config \<Rightarrow> (string \<Rightarrow> string) \<Rightarrow> (JobStatusT list \<Rightarrow> go_error) \<Rightarrow> time \<Rightarrow>
   store_env \<Rightarrow> JobT list \<Rightarrow> panic + JobStatusT list\<close> where
  \<open>errWorkerStep cfg jsonString update now env jobs =
     (case fst (storeErrorsToObjectStorage env jobs) of
        Inl p \<Rightarrow> Inl p
      | Inr output \<Rightarrow> setErrJobStatus cfg jsonString update now jobs output)\<close>

subsection \<open>Sample values\<close>

definition exampleConfig :: stash_config where
  \<open>exampleConfig =
     \<lparr> errorStashEnabled = True, errDBReadBatchSize = 1000,
       maxFailedCountForErrJob = 3, payloadLimit = 104857600 \<rparr>\<close>

definition exampleJob :: \<open>int64 \<Rightarrow> int64 \<Rightarrow> string \<Rightarrow> JobT\<close> where
  \<open>exampleJob jobId attempt source =
     \<lparr> UUID = ''5c1bd7e2'', UserID = ''u1'', Customer = ''acme'', JobT.JobID = jobId,
       CreatedAt = 0, ExpireAt = 0, CustomVal = ''GA'', EventPayload = ''{}'',
       LastJobStatus =
         \<lparr> JobStatusT.JobID = jobId, AttemptNum = attempt, JobState = Failed, ExecTime = 0,
           RetryTime = 0, ErrorCode = [], ErrorResponse = ''{}'',
           JobStatusT.Parameters = ''{}'', JobStatusT.WorkspaceId = ''w'' \<rparr>,
       JobT.Parameters = source, JobT.WorkspaceId = ''w'' \<rparr>\<close>

definition jsonQuote :: \<open>string \<Rightarrow> string\<close> where
  \<open>jsonQuote s = ''"'' @ s @ ''"''\<close>

definition exampleTick :: \<open>JobT list \<Rightarrow> JobT list \<Rightarrow> tick\<close> where
  \<open>exampleTick retry fresh =
     \<lparr> getToRetry = (\<lambda>q. Inr \<lparr> Jobs = retry, LimitsReached = False, PayloadSize = 0 \<rparr>),
       getUnprocessed = (\<lambda>q. Inr \<lparr> Jobs = fresh, LimitsReached = False, PayloadSize = 0 \<rparr>),
       isMasterBackupEnabled = True,
       fileUploaderPresent = True,
       updateJobStatus = (\<lambda>rows. None),
       clock = 0 \<rparr>\<close>

definition exampleStoreEnv :: store_env where
  \<open>exampleStoreEnv =
     \<lparr> newV4 = Inr ''0b2f'',
       createTMPDIR = Inr ''/tmp'',
       unixNow = 1700000000,
       environ = (\<lambda>k. if k = ''INSTANCE_ID'' then Some ''node-7'' else None),
       filepathDir = (\<lambda>p. ''/tmp/rudder-processor-errors''),
       mkdirAll = (\<lambda>d. None),
       createGZ = (\<lambda>p. None),
       marshalJob = (\<lambda>j. Inr (EventPayload j)),
       writeGZ = (\<lambda>p c. None),
       closeGZ = (\<lambda>p. None),
       openFile = (\<lambda>p. None),
       dateNow = ''11-14-2023'',
       uploadFile = (\<lambda>p prefixes. (''s3://bucket/'' @ p, None)) \<rparr>\<close>

subsection \<open>Status histories\<close>

text \<open>
  A job's status history is the list of its rows, oldest first; the attempt numbers do
  not decrease along it when each row's number is at most the next one's, as Go compares
  \<open>int\<close>s.
\<close>

definition attemptsNonDecreasing :: \<open>JobStatusT list \<Rightarrow> bool\<close> where
  \<open>attemptsNonDecreasing history =
     sorted_wrt (\<lambda>earlier later. AttemptNum earlier \<le>s AttemptNum later) history\<close>

section \<open>Router manager (router/manager/manager.go)\<close>

text \<open>
  The backend configuration, with the fields the router tests build
  (\<open>sampleBackendConfig\<close>); a destination's own \<open>Config\<close> map plays no part in the
  manager and is left out.
\<close>

record DestinationDefinitionT =
  ID :: string
  Name :: string
  DisplayName :: string

record DestinationT =
  ID :: string
  Name :: string
  DestinationDefinition :: DestinationDefinitionT
  Enabled :: bool
  IsProcessorEnabled :: bool

record SourceT =
  WorkspaceID :: string
  ID :: string
  WriteKey :: string
  Enabled :: bool
  Destinations :: \<open>DestinationT list\<close>

record ConfigT =
  Sources :: \<open>SourceT list\<close>

definition objectStorageDestinations :: \<open>string list\<close> where
  \<open>objectStorageDestinations = [''S3'', ''GCS'', ''AZURE_BLOB'', ''MINIO'', ''DIGITAL_OCEAN_SPACES'']\<close>

definition asyncDestinations :: \<open>string list\<close> where
  \<open>asyncDestinations = [''MARKETO_BULK_UPLOAD'']\<close>

definition warehouseDestinations :: \<open>string list\<close> where
  \<open>warehouseDestinations =
     [''RS'', ''BQ'', ''SNOWFLAKE'', ''POSTGRES'', ''CLICKHOUSE'', ''MSSQL'', ''AZURE_SYNAPSE'',
      ''S3_DATALAKE'', ''GCS_DATALAKE'', ''AZURE_DATALAKE'', ''DELTALAKE'']\<close>

text \<open>
  Modelled from the spec: \<open>misc.ContainsString\<close> is not among the sources; by its name
  and its use it tells whether the slice holds the string.
\<close>

definition ContainsString :: \<open>string list \<Rightarrow> string \<Rightarrow> bool\<close> where
  \<open>ContainsString strs str = (str \<in> set strs)\<close>

text \<open>
  What the manager does to its collaborators, in order: \<open>DeleteExecuting\<close> on a job
  store, a factory's \<open>New\<close> (for a router with the destination definition, for a batch
  router with its name), and \<open>Start\<close> and \<open>Shutdown\<close> of a router, named by the
  destination definition's name it was created for.
\<close>

datatype job_store = RouterDB | BatchRouterDB

datatype manager_op =
    DeleteExecuting job_store
  | RouterNew DestinationDefinitionT
  | RouterStart string
  | BatchRouterNew string
  | BatchRouterStart string
  | RouterShutdown string
  | BatchRouterShutdown string

text \<open>
  The local variables of \<open>monitorDestRouters\<close>. A handle is known by what its factory
  was called with; \<open>cleanup\<close> holds the registered \<open>Shutdown\<close> methods as the
  operations they will perform; \<open>ops\<close> is the trace of what has been done.
\<close>

record manager_state =
  dstToRouter :: \<open>string \<rightharpoonup> DestinationDefinitionT\<close>
  dstToBatchRouter :: \<open>string \<rightharpoonup> string\<close>
  enabledDestinations :: \<open>string \<rightharpoonup> bool\<close>
  cleanup :: \<open>manager_op list\<close>
  ops :: \<open>manager_op list\<close>

text \<open>Lines 98 to 120: the body of the loop over a source's destinations.\<close>

definition startDestination :: \<open>manager_state \<Rightarrow> DestinationT \<Rightarrow> manager_state\<close> where
  \<open>startDestination st0 destination =
     (let name = DestinationDefinitionT.Name (DestinationDefinition destination);
          st = st0\<lparr> enabledDestinations := (enabledDestinations st0)(name \<mapsto> True) \<rparr>
      in if ContainsString objectStorageDestinations name \<or>
            ContainsString warehouseDestinations name \<or>
            ContainsString asyncDestinations name
         then
           (case dstToBatchRouter st name of
              Some brt \<Rightarrow> st
            | None \<Rightarrow>
                st\<lparr> ops := ops st @ [BatchRouterNew name, BatchRouterStart name],
                    cleanup := cleanup st @ [BatchRouterShutdown name],
                    dstToBatchRouter := (dstToBatchRouter st)(name \<mapsto> name) \<rparr>)
         else
           (case dstToRouter st name of
              Some rt \<Rightarrow> st
            | None \<Rightarrow>
                st\<lparr> ops := ops st @ [RouterNew (DestinationDefinition destination),
                                       RouterStart name],
                    cleanup := cleanup st @ [RouterShutdown name],
                    dstToRouter :=
                      (dstToRouter st)(name \<mapsto> DestinationDefinition destination) \<rparr>))\<close>

primrec startDestinations :: \<open>manager_state \<Rightarrow> DestinationT list \<Rightarrow> manager_state\<close> where
  \<open>startDestinations st [] = st\<close>
| \<open>startDestinations st (destination # destinations) =
     startDestinations (startDestination st destination) destinations\<close>

primrec startSources :: \<open>manager_state \<Rightarrow> SourceT list \<Rightarrow> manager_state\<close> where
  \<open>startSources st [] = st\<close>
| \<open>startSources st (source # sources) =
     startSources (startDestinations st (Destinations source)) sources\<close>

text \<open>Lines 94 to 122: one configuration received from the channel.\<close>

definition handleConfig :: \<open>manager_state \<Rightarrow> ConfigT \<Rightarrow> manager_state\<close> where
  \<open>handleConfig st config =
     startSources (st\<lparr> enabledDestinations := Map.empty \<rparr>) (Sources config)\<close>

text \<open>
  What the \<open>select\<close> of the loop receives: the context's cancellation, the closing of
  the configuration channel, or a configuration (\<open>config.Data\<close> as the \<open>ConfigT\<close>
  it is asserted to be). The loop returns the state and whether it has left the loop;
  a run whose events are used up is still waiting in the select.
\<close>

datatype monitor_event = ContextCancelled | ConfigChannelClosed | ConfigEvent ConfigT

fun monitorLoop :: \<open>manager_state \<Rightarrow> monitor_event list \<Rightarrow> manager_state \<times> bool\<close> where
  \<open>monitorLoop st [] = (st, False)\<close>
| \<open>monitorLoop st (ContextCancelled # events) = (st, True)\<close>
| \<open>monitorLoop st (ConfigChannelClosed # events) = (st, True)\<close>
| \<open>monitorLoop st (ConfigEvent config # events) = monitorLoop (handleConfig st config) events\<close>

text \<open>
  \<open>monitorDestRouters\<close>: the crash recovery of both job stores, the loop, and after
  the loop the registered shutdowns (the source runs them concurrently and waits for
  all; they are listed in the order registered). The result is the trace of operations.
\<close>

definition monitorDestRouters :: \<open>monitor_event list \<Rightarrow> manager_op list\<close> where
  \<open>monitorDestRouters events =
     (let st0 = \<lparr> dstToRouter = Map.empty, dstToBatchRouter = Map.empty,
                  enabledDestinations = Map.empty, cleanup = [],
                  ops = [DeleteExecuting RouterDB, DeleteExecuting BatchRouterDB] \<rparr>;
          (st, stopped) = monitorLoop st0 events
      in if stopped then ops st @ cleanup st else ops st)\<close>

subsection \<open>Notions used to state the manager's properties\<close>

text \<open>The configurations the loop handles: those received before it leaves the loop.\<close>

fun configsHandled :: \<open>monitor_event list \<Rightarrow> ConfigT list\<close> where
  \<open>configsHandled [] = []\<close>
| \<open>configsHandled (ConfigEvent config # events) = config # configsHandled events\<close>
| \<open>configsHandled (ContextCancelled # events) = []\<close>
| \<open>configsHandled (ConfigChannelClosed # events) = []\<close>

text \<open>The destinations listed in a configuration, under all its sources.\<close>

definition destinationsOf :: \<open>ConfigT \<Rightarrow> DestinationT list\<close> where
  \<open>destinationsOf config = concat (map Destinations (Sources config))\<close>

definition definitionName :: \<open>DestinationT \<Rightarrow> string\<close> where
  \<open>definitionName destination = DestinationDefinitionT.Name (DestinationDefinition destination)\<close>

text \<open>The operations that create or start a router or a batch router.\<close>

fun isStartup :: \<open>manager_op \<Rightarrow> bool\<close> where
  \<open>isStartup (RouterNew d) = True\<close>
| \<open>isStartup (RouterStart n) = True\<close>
| \<open>isStartup (BatchRouterNew n) = True\<close>
| \<open>isStartup (BatchRouterStart n) = True\<close>
| \<open>isStartup other = False\<close>

text \<open>The starts of a router of either flavour for one destination definition name.\<close>

definition startsOf :: \<open>string \<Rightarrow> manager_op list \<Rightarrow> manager_op list\<close> where
  \<open>startsOf name trace = filter (\<lambda>op. op = RouterStart name \<or> op = BatchRouterStart name) trace\<close>

text \<open>The names for which the manager starts a batch router.\<close>

definition batchDestinations :: \<open>string list\<close> where
  \<open>batchDestinations = objectStorageDestinations @ warehouseDestinations @ asyncDestinations\<close>

text \<open>The names for which a trace holds the start of a router of either flavour.\<close>

definition startedNames :: \<open>manager_op list \<Rightarrow> string set\<close> where
  \<open>startedNames trace = {n. RouterStart n \<in> set trace \<or> BatchRouterStart n \<in> set trace}\<close>

text \<open>
  The invariant of the loop: the two maps hold exactly the names whose router has been
  started, no name has been started twice, the flavour started follows the lists, and
  only shutdowns are registered for the end.
\<close>

definition managerInv :: \<open>manager_state \<Rightarrow> bool\<close> where
  \<open>managerInv st \<longleftrightarrow>
     (\<forall>n. dstToRouter st n = None \<longleftrightarrow> RouterStart n \<notin> set (ops st)) \<and>
     (\<forall>n. dstToBatchRouter st n = None \<longleftrightarrow> BatchRouterStart n \<notin> set (ops st)) \<and>
     (\<forall>n. length (startsOf n (ops st)) \<le> 1) \<and>
     (\<forall>n. BatchRouterStart n \<in> set (ops st) \<longrightarrow> n \<in> set batchDestinations) \<and>
     (\<forall>n. RouterStart n \<in> set (ops st) \<longrightarrow> n \<notin> set batchDestinations) \<and>
     (\<forall>op \<in> set (cleanup st). \<not> isStartup op)\<close>

text \<open>A configuration, and an event, with every destination's \<open>Enabled\<close> flag set anew.\<close>

definition withEnabled :: \<open>(DestinationT \<Rightarrow> bool) \<Rightarrow> ConfigT \<Rightarrow> ConfigT\<close> where
  \<open>withEnabled flag config =
     config\<lparr> Sources :=
       map (\<lambda>source. source\<lparr> Destinations :=
              map (\<lambda>destination. destination\<lparr> DestinationT.Enabled := flag destination \<rparr>)
                (Destinations source) \<rparr>)
         (Sources config) \<rparr>\<close>

fun eventWithEnabled :: \<open>(DestinationT \<Rightarrow> bool) \<Rightarrow> monitor_event \<Rightarrow> monitor_event\<close> where
  \<open>eventWithEnabled flag (ConfigEvent config) = ConfigEvent (withEnabled flag config)\<close>
| \<open>eventWithEnabled flag ContextCancelled = ContextCancelled\<close>
| \<open>eventWithEnabled flag ConfigChannelClosed = ConfigChannelClosed\<close>

text \<open>The state in which the loop is entered.\<close>

definition initialState :: manager_state where
  \<open>initialState =
     \<lparr> dstToRouter = Map.empty, dstToBatchRouter = Map.empty,
       enabledDestinations = Map.empty, cleanup = [],
       ops = [DeleteExecuting RouterDB, DeleteExecuting BatchRouterDB] \<rparr>\<close>

subsection \<open>Sample values\<close>

definition exampleDestination :: \<open>string \<Rightarrow> string \<Rightarrow> bool \<Rightarrow> DestinationT\<close> where
  \<open>exampleDestination ident name enabled =
     \<lparr> DestinationT.ID = ident, DestinationT.Name = name @ '' dest'',
       DestinationDefinition =
         \<lparr> DestinationDefinitionT.ID = name @ ''id1'', DestinationDefinitionT.Name = name,
           DisplayName = name \<rparr>,
       DestinationT.Enabled = enabled, IsProcessorEnabled = True \<rparr>\<close>

definition exampleSource :: \<open>string \<Rightarrow> DestinationT list \<Rightarrow> SourceT\<close> where
  \<open>exampleSource ident destinations =
     \<lparr> WorkspaceID = ''workspace'', SourceT.ID = ident, WriteKey = ''enabled-write-key'',
       SourceT.Enabled = True, Destinations = destinations \<rparr>\<close>

definition exampleEvents :: \<open>monitor_event list\<close> where
  \<open>exampleEvents =
     [ConfigEvent \<lparr> Sources =
        [exampleSource ''s1'' [exampleDestination ''d1'' ''GA'' True,
                               exampleDestination ''d2'' ''S3'' False],
         exampleSource ''s2'' [exampleDestination ''d3'' ''GA'' True]] \<rparr>,
      ConfigEvent \<lparr> Sources = [exampleSource ''s3'' [exampleDestination ''d4'' ''S3'' True]] \<rparr>,
      ContextCancelled]\<close>

section \<open>Router: jobs past their retention\<close>

text \<open>
  Modelled from the spec: the router's pickup of jobs (\<open>readAndProcess\<close> in the router
  package) is not among the sources; only its test is. The spec has the generator
  \<^emph>\<open>report any job older than JobRetention as aborted with reason "job expired" without
  sending it\<close>, the condition being \<^emph>\<open>now - createdAt > jobRetention\<close>, the state
  Aborted, the code \<open>410\<close>, and the attempt number unchanged; the test expects the row
  \<open>Aborted\<close>, \<open>"410"\<close>, \<open>{"reason": "job expired"}\<close> with the job's own attempt
  number, and no job counted as picked up. A job that is not drained is handed to a
  worker, and the destination adapter is called by workers only, for jobs handed to them.
\<close>

definition isExpired :: \<open>time \<Rightarrow> int \<Rightarrow> JobT \<Rightarrow> bool\<close> where
  \<open>isExpired now jobRetention job = (jobRetention < now - CreatedAt job)\<close>

definition expiredStatus :: \<open>time \<Rightarrow> JobT \<Rightarrow> JobStatusT\<close> where
  \<open>expiredStatus now job =
     \<lparr> JobStatusT.JobID = JobT.JobID job,
       AttemptNum = AttemptNum (LastJobStatus job),
       JobState = Aborted,
       ExecTime = now,
       RetryTime = now,
       ErrorCode = ''410'',
       ErrorResponse = ''{"reason": "job expired"}'',
       JobStatusT.Parameters = ''{}'',
       JobStatusT.WorkspaceId = JobT.WorkspaceId job \<rparr>\<close>

record pickup =
  drainList :: \<open>JobStatusT list\<close>
  toWorkers :: \<open>JobT list\<close>

fun pickupLoop :: \<open>time \<Rightarrow> int \<Rightarrow> JobT list \<Rightarrow> pickup \<Rightarrow> pickup\<close> where
  \<open>pickupLoop now jobRetention [] acc = acc\<close>
| \<open>pickupLoop now jobRetention (job # jobs) acc =
     (if isExpired now jobRetention job
      then pickupLoop now jobRetention jobs
             (acc\<lparr> drainList := drainList acc @ [expiredStatus now job] \<rparr>)
      else pickupLoop now jobRetention jobs
             (acc\<lparr> toWorkers := toWorkers acc @ [job] \<rparr>))\<close>

definition readAndProcess :: \<open>time \<Rightarrow> int \<Rightarrow> JobT list \<Rightarrow> pickup\<close> where
  \<open>readAndProcess now jobRetention jobs =
     pickupLoop now jobRetention jobs \<lparr> drainList = [], toWorkers = [] \<rparr>\<close>

section \<open>Properties of the error stash\<close>

lemma setErrJobStatus_loop_map:
  \<open>setErrJobStatus_loop cfg js now output jobs acc =
     acc @ map (errJobStatus cfg js now output) jobs\<close>
  by (induction jobs arbitrary: acc) simp_all

lemma errJobStatus_JobID [simp]:
  \<open>JobStatusT.JobID (errJobStatus cfg js now output job) = JobT.JobID job\<close>
  by (simp add: errJobStatus_def split: option.split)

lemma errJobStatus_AttemptNum [simp]:
  \<open>AttemptNum (errJobStatus cfg js now output job) = AttemptNum (LastJobStatus job) + 1\<close>
  by (simp add: errJobStatus_def split: option.split)

lemma errJobStatus_JobState:
  \<open>JobState (errJobStatus cfg js now output job) =
     (if Error output = None then Succeeded
      else if maxFailedCountForErrJob cfg \<le>s AttemptNum (LastJobStatus job) then Aborted
      else Failed)\<close>
  by (simp add: errJobStatus_def split: option.split)

text \<open>
  C6. Whenever the write of the rows succeeds, \<open>setErrJobStatus\<close> returns one row per job,
  in order, for that job; the row's state is Succeeded when the upload returned no error;
  when the upload returned an error the state is Aborted if the job's last attempt number
  has reached \<open>maxFailedCountForErrJob\<close> and Failed otherwise; in every row the attempt
  number is the job's last one plus one.
\<close>

theorem C6_setErrJobStatus_states:
  assumes \<open>upd (map (errJobStatus cfg js now output) jobs) = None\<close>
  shows \<open>\<exists>statusList.
           setErrJobStatus cfg js upd now jobs output = Inr statusList \<and>
           length statusList = length jobs \<and>
           (\<forall>i < length jobs.
              JobStatusT.JobID (statusList ! i) = JobT.JobID (jobs ! i) \<and>
              AttemptNum (statusList ! i) = AttemptNum (LastJobStatus (jobs ! i)) + 1 \<and>
              JobState (statusList ! i) =
                (if Error output = None then Succeeded
                 else if maxFailedCountForErrJob cfg \<le>s AttemptNum (LastJobStatus (jobs ! i))
                 then Aborted else Failed))\<close>
proof -
  let ?sl = \<open>map (errJobStatus cfg js now output) jobs\<close>
  have \<open>setErrJobStatus cfg js upd now jobs output = Inr ?sl\<close>
    using assms by (simp add: setErrJobStatus_def setErrJobStatus_loop_map)
  moreover have \<open>length ?sl = length jobs\<close> by simp
  moreover have \<open>\<forall>i < length jobs.
      JobStatusT.JobID (?sl ! i) = JobT.JobID (jobs ! i) \<and>
      AttemptNum (?sl ! i) = AttemptNum (LastJobStatus (jobs ! i)) + 1 \<and>
      JobState (?sl ! i) =
        (if Error output = None then Succeeded
         else if maxFailedCountForErrJob cfg \<le>s AttemptNum (LastJobStatus (jobs ! i))
         then Aborted else Failed)\<close>
    by (simp add: errJobStatus_JobState)
  ultimately show ?thesis by blast
qed

theorem C6_setErrJobStatus_states_witness:
  \<open>\<exists>statusList.
      setErrJobStatus exampleConfig jsonQuote (\<lambda>rows. None) 0
        [exampleJob 7 3 ''{}'', exampleJob 8 1 ''{}'']
        \<lparr> Location = [], Error = Some ''timeout'' \<rparr> = Inr statusList \<and>
      length statusList = 2 \<and>
      JobState (statusList ! 0) = Aborted \<and> AttemptNum (statusList ! 0) = 4 \<and>
      JobState (statusList ! 1) = Failed \<and> AttemptNum (statusList ! 1) = 2\<close>
  using C6_setErrJobStatus_states
    [of \<open>\<lambda>rows. None\<close> exampleConfig jsonQuote 0
        \<open>\<lparr> Location = [], Error = Some ''timeout'' \<rparr>\<close>
        \<open>[exampleJob 7 3 ''{}'', exampleJob 8 1 ''{}'']\<close>]
  by (simp add: setErrJobStatus_def errJobStatus_def exampleConfig_def exampleJob_def
      word_sle_eq)

text \<open>The row the read loop builds for one job.\<close>

lemma readErrJobs_loop_upload:
  \<open>readErrJobs_loop True applyJob jobState now jobs (fl, sl) =
     (fl @ filter (\<lambda>j. \<not> applyJob j) jobs,
      sl @ map (\<lambda>job.
        \<lparr> JobStatusT.JobID = JobT.JobID job,
          AttemptNum = AttemptNum (LastJobStatus job) + 1,
          JobState = (if applyJob job then Aborted else jobState),
          ExecTime = now, RetryTime = now, ErrorCode = [], ErrorResponse = ''{}'',
          JobStatusT.Parameters = ''{}'',
          JobStatusT.WorkspaceId = JobT.WorkspaceId job \<rparr>) jobs)\<close>
  by (induction jobs arbitrary: fl sl) (simp_all add: Let_def)

lemma readErrJobs_loop_no_upload:
  \<open>readErrJobs_loop False applyJob jobState now jobs (fl, sl) =
     (fl,
      sl @ map (\<lambda>job.
        \<lparr> JobStatusT.JobID = JobT.JobID job,
          AttemptNum = AttemptNum (LastJobStatus job) + 1,
          JobState = jobState,
          ExecTime = now, RetryTime = now, ErrorCode = [], ErrorResponse = ''{}'',
          JobStatusT.Parameters = ''{}'',
          JobStatusT.WorkspaceId = JobT.WorkspaceId job \<rparr>) jobs)\<close>
  by (induction jobs arbitrary: fl sl) (simp_all add: Let_def)

lemma readErrJobs_loop_length:
  \<open>length (snd (readErrJobs_loop canUpload applyJob jobState now jobs (fl, sl))) =
     length sl + length jobs\<close>
  by (cases canUpload) (simp_all add: readErrJobs_loop_upload readErrJobs_loop_no_upload)

lemma readErrJobs_loop_AttemptNum:
  \<open>i < length jobs \<Longrightarrow>
   AttemptNum (snd (readErrJobs_loop canUpload applyJob jobState now jobs ([], [])) ! i) =
     AttemptNum (LastJobStatus (jobs ! i)) + 1\<close>
  by (cases canUpload) (simp_all add: readErrJobs_loop_upload readErrJobs_loop_no_upload)

lemma markErrJobs_sent_nonempty:
  \<open>markErrJobs cfg applyJob t combinedList = Inr r \<Longrightarrow> sent r = Some jobs \<Longrightarrow> jobs \<noteq> []\<close>
  by (auto simp: markErrJobs_def Let_def split: if_splits prod.splits option.splits)

lemma readErrJobsPass_sent_nonempty:
  \<open>readErrJobsPass cfg applyJob t = Inr r \<Longrightarrow> sent r = Some jobs \<Longrightarrow> jobs \<noteq> []\<close>
  by (auto simp: readErrJobsPass_def split: sum.splits dest: markErrJobs_sent_nonempty)

lemma readErrJobsLoop_batches_nonempty:
  \<open>jobs \<in> set (fst (readErrJobsLoop cfg applyJob events)) \<Longrightarrow> jobs \<noteq> []\<close>
proof (induction cfg applyJob events rule: readErrJobsLoop.induct)
  case (1 cfg applyJob)
  then show ?case by simp
next
  case (2 cfg applyJob es)
  then show ?case by simp
next
  case (3 cfg applyJob t es)
  show ?case
  proof (cases \<open>readErrJobsPass cfg applyJob t\<close>)
    case (Inl p)
    with 3 show ?thesis by simp
  next
    case (Inr r)
    show ?thesis
    proof (cases \<open>sent r\<close>)
      case None
      with 3 Inr show ?thesis by (simp split: prod.splits)
    next
      case (Some js)
      with Inr have \<open>js \<noteq> []\<close> by (rule readErrJobsPass_sent_nonempty)
      with 3 Inr Some show ?thesis by (auto split: prod.splits)
    qed
  qed
qed

lemma writeAndUpload_no_index_panic:
  \<open>fst (writeAndUpload env jobs p) \<noteq> Inl IndexOutOfRange\<close>
  by (simp add: writeAndUpload_def Let_def split: sum.split option.split prod.split)

lemma store_no_index_panic:
  \<open>jobs \<noteq> [] \<Longrightarrow> fst (storeErrorsToObjectStorage env jobs) \<noteq> Inl IndexOutOfRange\<close>
  using writeAndUpload_no_index_panic
  by (simp add: storeErrorsToObjectStorage_def Let_def split: sum.split option.split prod.split)
    (metis fst_conv)

lemma store_empty_panics:
  \<open>newV4 env = Inr u \<Longrightarrow> createTMPDIR env = Inr d \<Longrightarrow>
   storeErrorsToObjectStorage env [] = (Inl IndexOutOfRange, [])\<close>
  by (simp add: storeErrorsToObjectStorage_def)

text \<open>
  C9. Every batch that \<open>readErrJobsLoop\<close> sends on \<open>errProcessQ\<close> is non-empty, so
  the indices \<open>0\<close> and \<open>len(jobs)-1\<close> are within it and
  \<open>storeErrorsToObjectStorage\<close> does not panic with an index out of range on it.
\<close>

theorem C9_sent_batches_nonempty:
  \<open>\<forall>jobs \<in> set (fst (readErrJobsLoop cfg applyJob events)).
      jobs \<noteq> [] \<and> 0 < length jobs \<and> length jobs - 1 < length jobs \<and>
      fst (storeErrorsToObjectStorage env jobs) \<noteq> Inl IndexOutOfRange\<close>
proof
  fix jobs
  assume \<open>jobs \<in> set (fst (readErrJobsLoop cfg applyJob events))\<close>
  then have ne: \<open>jobs \<noteq> []\<close> by (rule readErrJobsLoop_batches_nonempty)
  then have \<open>fst (storeErrorsToObjectStorage env jobs) \<noteq> Inl IndexOutOfRange\<close>
    by (rule store_no_index_panic)
  with ne show \<open>jobs \<noteq> [] \<and> 0 < length jobs \<and> length jobs - 1 < length jobs \<and>
      fst (storeErrorsToObjectStorage env jobs) \<noteq> Inl IndexOutOfRange\<close>
    by simp
qed

theorem C9_sent_batches_nonempty_witness:
  \<open>[exampleJob 7 1 ''{}'', exampleJob 9 0 ''{}'']
      \<in> set (fst (readErrJobsLoop exampleConfig (\<lambda>j. JobT.Parameters j = ''transient'')
            [Tick (exampleTick [exampleJob 7 1 ''{}'']
                     [exampleJob 8 0 ''transient'', exampleJob 9 0 ''{}'']), CtxDone])) \<and>
   [exampleJob 7 1 ''{}'', exampleJob 9 0 ''{}''] \<noteq> [] \<and>
   fst (storeErrorsToObjectStorage exampleStoreEnv
          [exampleJob 7 1 ''{}'', exampleJob 9 0 ''{}'']) \<noteq> Inl IndexOutOfRange\<close>
proof -
  have mem: \<open>[exampleJob 7 1 ''{}'', exampleJob 9 0 ''{}'']
      \<in> set (fst (readErrJobsLoop exampleConfig (\<lambda>j. JobT.Parameters j = ''transient'')
            [Tick (exampleTick [exampleJob 7 1 ''{}'']
                     [exampleJob 8 0 ''transient'', exampleJob 9 0 ''{}'']), CtxDone]))\<close>
    by (simp add: readErrJobsPass_def readCombinedList_def markErrJobs_def backupEnabled_def
        exampleTick_def exampleConfig_def exampleJob_def Let_def)
  from C9_sent_batches_nonempty [of exampleConfig \<open>\<lambda>j. JobT.Parameters j = ''transient''\<close>
      \<open>[Tick (exampleTick [exampleJob 7 1 ''{}'']
                [exampleJob 8 0 ''transient'', exampleJob 9 0 ''{}'']), CtxDone]\<close> exampleStoreEnv]
    mem
  show ?thesis by blast
qed

text \<open>
  C7. In a pass in which uploading is possible (backup enabled and a file uploader
  present) and the write of the rows succeeds, the pass writes one row per job read, in
  order: Aborted for a job whose source is transient, Executing for every other job; and
  the batch sent for upload is exactly the non-transient jobs, in order (nothing is sent
  when there is none).
\<close>

theorem C7_transient_jobs_aborted:
  assumes \<open>backupEnabled cfg t\<close> and \<open>fileUploaderPresent t\<close>
    and \<open>readCombinedList cfg t = Inr combinedList\<close> and \<open>combinedList \<noteq> []\<close>
    and \<open>updateJobStatus t
           (snd (readErrJobs_loop True applyJob Executing (clock t) combinedList ([], []))) = None\<close>
  shows \<open>\<exists>rows.
           readErrJobsPass cfg applyJob t =
             Inr \<lparr> written = Some rows,
                   sent = (if filter (\<lambda>j. \<not> applyJob j) combinedList = [] then None
                           else Some (filter (\<lambda>j. \<not> applyJob j) combinedList)) \<rparr> \<and>
           length rows = length combinedList \<and>
           (\<forall>i < length combinedList.
              JobStatusT.JobID (rows ! i) = JobT.JobID (combinedList ! i) \<and>
              JobState (rows ! i) =
                (if applyJob (combinedList ! i) then Aborted else Executing))\<close>
  using assms
  by (simp add: readErrJobsPass_def markErrJobs_def readErrJobs_loop_upload Let_def)

theorem C7_transient_jobs_aborted_witness:
  \<open>\<exists>rows.
      readErrJobsPass exampleConfig (\<lambda>j. JobT.Parameters j = ''transient'')
        (exampleTick [exampleJob 7 1 ''{}'']
           [exampleJob 8 0 ''transient'', exampleJob 9 0 ''{}'']) =
        Inr \<lparr> written = Some rows,
              sent = Some [exampleJob 7 1 ''{}'', exampleJob 9 0 ''{}''] \<rparr> \<and>
      map JobState rows = [Executing, Aborted, Executing]\<close>
  using C7_transient_jobs_aborted [of exampleConfig
      \<open>exampleTick [exampleJob 7 1 ''{}''] [exampleJob 8 0 ''transient'', exampleJob 9 0 ''{}'']\<close>
      \<open>[exampleJob 7 1 ''{}'', exampleJob 8 0 ''transient'', exampleJob 9 0 ''{}'']\<close>
      \<open>\<lambda>j. JobT.Parameters j = ''transient''\<close>]
  by (simp add: readErrJobsPass_def readCombinedList_def markErrJobs_def backupEnabled_def
      exampleTick_def exampleConfig_def exampleJob_def Let_def)

text \<open>
  C8. For a non-empty batch, when every file operation up to the upload succeeds, the
  function creates one file through the gzip writer, writes the jobs into it, and uploads
  that same file; its path is the temporary directory, \<open>/rudder-processor-errors/\<close>, and
  the name \<open>ts.instance.firstId-lastId.uuid.json.gz\<close>, where \<open>ts\<close> is the unix time
  read, \<open>instance\<close> the value of \<open>INSTANCE_ID\<close> (\<open>1\<close> when the variable is not set),
  and \<open>firstId\<close> and \<open>lastId\<close> the JobIDs of the first and the last job of the batch.
\<close>

theorem C8_stash_file_name:
  assumes \<open>jobs \<noteq> []\<close>
    and \<open>newV4 env = Inr uuid\<close> and \<open>createTMPDIR env = Inr tmpDirPath\<close>
    and \<open>name = formatInt64 (unixNow env) @ ''.'' @
                 GetEnv (environ env) ''INSTANCE_ID'' ''1'' @ ''.'' @
                 formatInt64 (JobT.JobID (hd jobs)) @ ''-'' @
                 formatInt64 (JobT.JobID (last jobs)) @ ''.'' @ uuid @ ''.json.gz''\<close>
    and \<open>file = tmpDirPath @ ''/rudder-processor-errors/'' @ name\<close>
    and \<open>mkdirAll env (filepathDir env file) = None\<close>
    and \<open>createGZ env file = None\<close>
    and \<open>marshalJobs (marshalJob env) jobs [] = Inr contentSlice\<close>
    and \<open>writeGZ env file (bytesJoin contentSlice [CHR 0x0A]) = None\<close>
    and \<open>closeGZ env file = None\<close>
    and \<open>openFile env file = None\<close>
  shows \<open>storeErrorsToObjectStorage env jobs =
           (Inr \<lparr> Location = fst (uploadFile env file [''rudder-proc-err-logs'', dateNow env]),
                  Error = snd (uploadFile env file [''rudder-proc-err-logs'', dateNow env]) \<rparr>,
            [MkdirAll (filepathDir env file), CreateGZ file,
             WriteGZ file (bytesJoin contentSlice [CHR 0x0A]), CloseGZ file, Open file,
             Upload file [''rudder-proc-err-logs'', dateNow env], Remove file])\<close>
proof -
  have first: \<open>jobs ! 0 = hd jobs\<close> and final: \<open>jobs ! (length jobs - 1) = last jobs\<close>
    using assms(1) by (simp_all add: hd_conv_nth last_conv_nth)
  have inner: \<open>writeAndUpload env jobs file =
      (Inr \<lparr> Location = fst (uploadFile env file [''rudder-proc-err-logs'', dateNow env]),
             Error = snd (uploadFile env file [''rudder-proc-err-logs'', dateNow env]) \<rparr>,
       [WriteGZ file (bytesJoin contentSlice [CHR 0x0A]), CloseGZ file, Open file,
        Upload file [''rudder-proc-err-logs'', dateNow env]])\<close>
    using assms(8-11) by (simp add: writeAndUpload_def Let_def split: prod.split)
  show ?thesis
    using assms(1,2,3,6,7) inner
    unfolding assms(5) assms(4) first [symmetric] final [symmetric]
      storeErrorsToObjectStorage_def Let_def
    by simp
qed

theorem C8_stash_file_name_witness:
  \<open>storeErrorsToObjectStorage exampleStoreEnv
      [exampleJob 2009 1 ''{}'', exampleJob 2010 0 ''{}'', exampleJob 2011 0 ''{}''] =
     (Inr \<lparr> Location =
              ''s3://bucket//tmp/rudder-processor-errors/1700000000.node-7.2009-2011.0b2f.json.gz'',
            Error = None \<rparr>,
      [MkdirAll ''/tmp/rudder-processor-errors'',
       CreateGZ ''/tmp/rudder-processor-errors/1700000000.node-7.2009-2011.0b2f.json.gz'',
       WriteGZ ''/tmp/rudder-processor-errors/1700000000.node-7.2009-2011.0b2f.json.gz''
         (''{}'' @ [CHR 0x0A] @ ''{}'' @ [CHR 0x0A] @ ''{}''),
       CloseGZ ''/tmp/rudder-processor-errors/1700000000.node-7.2009-2011.0b2f.json.gz'',
       Open ''/tmp/rudder-processor-errors/1700000000.node-7.2009-2011.0b2f.json.gz'',
       Upload ''/tmp/rudder-processor-errors/1700000000.node-7.2009-2011.0b2f.json.gz''
         [''rudder-proc-err-logs'', ''11-14-2023''],
       Remove ''/tmp/rudder-processor-errors/1700000000.node-7.2009-2011.0b2f.json.gz''])\<close>
proof -
  have n1: \<open>formatInt64 1700000000 = ''1700000000''\<close>
    and n2: \<open>formatInt64 2009 = ''2009''\<close> and n3: \<open>formatInt64 2011 = ''2011''\<close>
    by (simp_all add: formatInt64_def digitChar_def)
  show ?thesis
    using C8_stash_file_name [of
        \<open>[exampleJob 2009 1 ''{}'', exampleJob 2010 0 ''{}'', exampleJob 2011 0 ''{}'']\<close>
        exampleStoreEnv \<open>''0b2f''\<close> \<open>''/tmp''\<close>
        \<open>''1700000000.node-7.2009-2011.0b2f.json.gz''\<close>
        \<open>''/tmp/rudder-processor-errors/1700000000.node-7.2009-2011.0b2f.json.gz''\<close>
        \<open>[''{}'', ''{}'', ''{}'']\<close>]
    by (simp add: exampleStoreEnv_def exampleJob_def GetEnv_def n1 n2 n3)
qed

lemma sint_succ_int64:
  fixes a :: int64
  assumes \<open>sint a < 2 ^ 63 - 1\<close>
  shows \<open>sint (a + 1) = sint a + 1\<close>
proof -
  have lo: \<open>- (2 ^ 63) \<le> sint a\<close> using sint_ge [of a] by simp
  have \<open>sint (a + 1) = signed_take_bit 63 (sint a + 1)\<close>
    by (simp add: sint_word_ariths)
  also have \<open>\<dots> = sint a + 1\<close>
    using assms lo by (intro signed_take_bit_int_eq_self) simp_all
  finally show ?thesis .
qed

lemma setErrJobStatus_loop_AttemptNum:
  \<open>k < length batch \<Longrightarrow>
   AttemptNum (setErrJobStatus_loop cfg js now output batch [] ! k) =
     AttemptNum (LastJobStatus (batch ! k)) + 1\<close>
  by (simp add: setErrJobStatus_loop_map)

lemma attemptsNonDecreasing_extend:
  assumes h: \<open>attemptsNonDecreasing (history @ [l])\<close>
    and l1: \<open>AttemptNum l \<le>s AttemptNum r1\<close> and l2: \<open>AttemptNum r1 \<le>s AttemptNum r2\<close>
  shows \<open>attemptsNonDecreasing (history @ [l, r1, r2])\<close>
proof -
  have below: \<open>\<forall>x \<in> set history. AttemptNum x \<le>s AttemptNum l\<close>
    and sorted: \<open>sorted_wrt (\<lambda>earlier later. AttemptNum earlier \<le>s AttemptNum later) history\<close>
    using h by (simp_all add: attemptsNonDecreasing_def sorted_wrt_append)
  have \<open>\<forall>x \<in> set history. AttemptNum x \<le>s AttemptNum r1 \<and> AttemptNum x \<le>s AttemptNum r2\<close>
    using below l1 l2 by (auto simp: word_sle_eq)
  moreover have \<open>AttemptNum l \<le>s AttemptNum r2\<close>
    using l1 l2 by (simp add: word_sle_eq)
  ultimately show ?thesis
    using below sorted l1 l2 by (simp add: attemptsNonDecreasing_def sorted_wrt_append)
qed

lemma retried_job_attempt_bounded:
  assumes \<open>JobState (errJobStatus cfg js now output job) = Failed\<close>
  shows \<open>sint (AttemptNum (errJobStatus cfg js now output job)) \<le>
         sint (maxFailedCountForErrJob cfg)\<close>
proof -
  have below: \<open>sint (AttemptNum (LastJobStatus job)) < sint (maxFailedCountForErrJob cfg)\<close>
    using assms by (auto simp: errJobStatus_JobState word_sle_eq split: if_splits)
  have \<open>sint (maxFailedCountForErrJob cfg) < 2 ^ 63\<close>
    using sint_lt [of \<open>maxFailedCountForErrJob cfg\<close>] by simp
  with below have \<open>sint (AttemptNum (LastJobStatus job)) < 2 ^ 63 - 1\<close> by simp
  then have \<open>sint (AttemptNum (LastJobStatus job) + 1) = sint (AttemptNum (LastJobStatus job)) + 1\<close>
    by (rule sint_succ_int64)
  with below show ?thesis by simp
qed

text \<open>
  C2. For every job the stash reads whose last recorded attempt number is below the
  largest Go \<open>int\<close>, the row written for it when it is read from the queue and the
  row written for it after the upload attempt both carry exactly that number plus one,
  with no wrap-around; each is therefore strictly greater than the last recorded number,
  the two are equal, and a history whose attempt numbers did not decrease up to the
  job's last status still does not decrease after the two rows are appended.
  The bound holds of the jobs the stash reads: a job not yet processed carries the
  number 0, and a job to retry carries the Failed row of its previous pass, whose number
  is at most \<open>maxFailedCountForErrJob\<close> by the lemma above.
\<close>

theorem C2_attempt_numbers_increase:
  assumes bound: \<open>sint (AttemptNum (LastJobStatus job)) < 2 ^ 63 - 1\<close>
    and i: \<open>i < length combinedList\<close> \<open>combinedList ! i = job\<close>
    and k: \<open>k < length batch\<close> \<open>batch ! k = job\<close>
    and rows: \<open>readRow = snd (readErrJobs_loop canUpload applyJob jobState now combinedList ([], [])) ! i\<close>
      \<open>finalRow = setErrJobStatus_loop cfg js now' output batch [] ! k\<close>
    and history: \<open>attemptsNonDecreasing (history @ [LastJobStatus job])\<close>
  shows \<open>AttemptNum readRow = AttemptNum (LastJobStatus job) + 1 \<and>
         AttemptNum finalRow = AttemptNum (LastJobStatus job) + 1 \<and>
         sint (AttemptNum readRow) = sint (AttemptNum (LastJobStatus job)) + 1 \<and>
         sint (AttemptNum finalRow) = sint (AttemptNum (LastJobStatus job)) + 1 \<and>
         AttemptNum readRow = AttemptNum finalRow \<and>
         AttemptNum (LastJobStatus job) <s AttemptNum readRow \<and>
         AttemptNum (LastJobStatus job) <s AttemptNum finalRow \<and>
         attemptsNonDecreasing (history @ [LastJobStatus job, readRow, finalRow])\<close>
proof -
  have r: \<open>AttemptNum readRow = AttemptNum (LastJobStatus job) + 1\<close>
    using i rows(1) by (simp add: readErrJobs_loop_AttemptNum)
  have f: \<open>AttemptNum finalRow = AttemptNum (LastJobStatus job) + 1\<close>
    using k rows(2) by (simp add: setErrJobStatus_loop_AttemptNum)
  have exact: \<open>sint (AttemptNum (LastJobStatus job) + 1) = sint (AttemptNum (LastJobStatus job)) + 1\<close>
    using bound by (rule sint_succ_int64)
  have less: \<open>AttemptNum (LastJobStatus job) <s AttemptNum (LastJobStatus job) + 1\<close>
    using exact by (simp add: word_sless_alt)
  have \<open>attemptsNonDecreasing (history @ [LastJobStatus job, readRow, finalRow])\<close>
  proof (rule attemptsNonDecreasing_extend [OF history])
    show \<open>AttemptNum (LastJobStatus job) \<le>s AttemptNum readRow\<close>
      using less r by (simp add: word_sle_eq word_sless_alt)
    show \<open>AttemptNum readRow \<le>s AttemptNum finalRow\<close>
      using r f by simp
  qed
  with less exact r f show ?thesis by simp
qed

theorem C2_attempt_numbers_increase_witness:
  \<open>AttemptNum (snd (readErrJobs_loop True (\<lambda>j. False) Executing 0
                      [exampleJob 6 0 ''{}'', exampleJob 7 2 ''{}''] ([], [])) ! 1) = 3 \<and>
   AttemptNum (setErrJobStatus_loop exampleConfig jsonQuote 5
                 \<lparr> Location = [], Error = Some ''timeout'' \<rparr> [exampleJob 7 2 ''{}''] [] ! 0) = 3 \<and>
   AttemptNum (LastJobStatus (exampleJob 7 2 ''{}'')) <s
     AttemptNum (snd (readErrJobs_loop True (\<lambda>j. False) Executing 0
                        [exampleJob 6 0 ''{}'', exampleJob 7 2 ''{}''] ([], [])) ! 1) \<and>
   AttemptNum (LastJobStatus (exampleJob 7 2 ''{}'')) <s
     AttemptNum (setErrJobStatus_loop exampleConfig jsonQuote 5
                   \<lparr> Location = [], Error = Some ''timeout'' \<rparr> [exampleJob 7 2 ''{}''] [] ! 0) \<and>
   attemptsNonDecreasing
     ([] @ [LastJobStatus (exampleJob 7 2 ''{}''),
       snd (readErrJobs_loop True (\<lambda>j. False) Executing 0
              [exampleJob 6 0 ''{}'', exampleJob 7 2 ''{}''] ([], [])) ! 1,
       setErrJobStatus_loop exampleConfig jsonQuote 5
         \<lparr> Location = [], Error = Some ''timeout'' \<rparr> [exampleJob 7 2 ''{}''] [] ! 0])\<close>
proof -
  have bound: \<open>sint (AttemptNum (LastJobStatus (exampleJob 7 2 ''{}''))) < 2 ^ 63 - 1\<close>
    by (simp add: exampleJob_def)
  have history: \<open>attemptsNonDecreasing ([] @ [LastJobStatus (exampleJob 7 2 ''{}'')])\<close>
    by (simp add: attemptsNonDecreasing_def)
  have i: \<open>1 < length [exampleJob 6 0 ''{}'', exampleJob 7 2 ''{}'']\<close>
    \<open>[exampleJob 6 0 ''{}'', exampleJob 7 2 ''{}''] ! 1 = exampleJob 7 2 ''{}''\<close>
    by simp_all
  have k: \<open>0 < length [exampleJob 7 2 ''{}'']\<close>
    \<open>[exampleJob 7 2 ''{}''] ! 0 = exampleJob 7 2 ''{}''\<close>
    by simp_all
  from C2_attempt_numbers_increase [OF bound i k refl refl history,
      of True \<open>\<lambda>j. False\<close> Executing 0 exampleConfig jsonQuote 5
         \<open>\<lparr> Location = [], Error = Some ''timeout'' \<rparr>\<close>]
  show ?thesis by (simp add: exampleJob_def)
qed

section \<open>Properties of the router manager\<close>

lemma startDestination_ops_prefix:
  \<open>\<exists>more. ops (startDestination st d) = ops st @ more\<close>
  by (simp add: startDestination_def Let_def split: option.split)

lemma startDestinations_ops_prefix:
  \<open>\<exists>more. ops (startDestinations st ds) = ops st @ more\<close>
proof (induction ds arbitrary: st)
  case Nil
  show ?case by simp
next
  case (Cons d ds)
  obtain m1 where \<open>ops (startDestination st d) = ops st @ m1\<close>
    using startDestination_ops_prefix by blast
  moreover obtain m2 where
    \<open>ops (startDestinations (startDestination st d) ds) = ops (startDestination st d) @ m2\<close>
    using Cons.IH by blast
  ultimately show ?case by simp
qed

lemma startSources_ops_prefix:
  \<open>\<exists>more. ops (startSources st srcs) = ops st @ more\<close>
proof (induction srcs arbitrary: st)
  case Nil
  show ?case by simp
next
  case (Cons s srcs)
  obtain m1 where \<open>ops (startDestinations st (Destinations s)) = ops st @ m1\<close>
    using startDestinations_ops_prefix by blast
  moreover obtain m2 where
    \<open>ops (startSources (startDestinations st (Destinations s)) srcs) =
       ops (startDestinations st (Destinations s)) @ m2\<close>
    using Cons.IH by blast
  ultimately show ?case by simp
qed

lemma handleConfig_ops_prefix:
  \<open>\<exists>more. ops (handleConfig st config) = ops st @ more\<close>
  using startSources_ops_prefix [of \<open>st\<lparr> enabledDestinations := Map.empty \<rparr>\<close> \<open>Sources config\<close>]
  by (simp add: handleConfig_def)

lemma monitorLoop_ops_prefix:
  \<open>\<exists>more. ops (fst (monitorLoop st events)) = ops st @ more\<close>
proof (induction st events rule: monitorLoop.induct)
  case (4 st config events)
  obtain m1 where \<open>ops (handleConfig st config) = ops st @ m1\<close>
    using handleConfig_ops_prefix by blast
  moreover obtain m2 where
    \<open>ops (fst (monitorLoop (handleConfig st config) events)) = ops (handleConfig st config) @ m2\<close>
    using 4 by blast
  ultimately show ?case by simp
qed simp_all

lemma monitorDestRouters_begins:
  \<open>\<exists>rest. monitorDestRouters events =
            DeleteExecuting RouterDB # DeleteExecuting BatchRouterDB # rest\<close>
proof -
  let ?st0 = \<open>\<lparr> dstToRouter = Map.empty, dstToBatchRouter = Map.empty,
                enabledDestinations = Map.empty, cleanup = [],
                ops = [DeleteExecuting RouterDB, DeleteExecuting BatchRouterDB] \<rparr>\<close>
  obtain more where
    \<open>ops (fst (monitorLoop ?st0 events)) = ops ?st0 @ more\<close>
    using monitorLoop_ops_prefix by blast
  then show ?thesis
    by (cases \<open>monitorLoop ?st0 events\<close>) (simp add: monitorDestRouters_def)
qed

text \<open>
  C5. In the trace of any run of \<open>monitorDestRouters\<close>, whatever it receives, every
  creation or start of a router or batch router comes after a \<open>DeleteExecuting\<close> on the
  router job store and after one on the batch-router job store: they are the first two
  operations of every run.
\<close>

theorem C5_crash_recovery_first:
  \<open>\<forall>i < length (monitorDestRouters events).
      isStartup (monitorDestRouters events ! i) \<longrightarrow>
        (\<exists>j < i. monitorDestRouters events ! j = DeleteExecuting RouterDB) \<and>
        (\<exists>k < i. monitorDestRouters events ! k = DeleteExecuting BatchRouterDB)\<close>
proof (intro allI impI)
  fix i
  assume \<open>i < length (monitorDestRouters events)\<close>
    and startup: \<open>isStartup (monitorDestRouters events ! i)\<close>
  obtain rest where tr:
    \<open>monitorDestRouters events = DeleteExecuting RouterDB # DeleteExecuting BatchRouterDB # rest\<close>
    using monitorDestRouters_begins by blast
  have \<open>i \<noteq> 0\<close>
  proof
    assume \<open>i = 0\<close>
    with startup tr show False by simp
  qed
  moreover have \<open>i \<noteq> 1\<close>
  proof
    assume \<open>i = 1\<close>
    with startup tr show False by simp
  qed
  ultimately have \<open>0 < i\<close> and \<open>1 < i\<close> by simp_all
  moreover have \<open>monitorDestRouters events ! 0 = DeleteExecuting RouterDB\<close>
    and \<open>monitorDestRouters events ! 1 = DeleteExecuting BatchRouterDB\<close>
    using tr by simp_all
  ultimately show \<open>(\<exists>j < i. monitorDestRouters events ! j = DeleteExecuting RouterDB) \<and>
        (\<exists>k < i. monitorDestRouters events ! k = DeleteExecuting BatchRouterDB)\<close>
    by blast
qed

lemma isBatch_iff:
  \<open>(ContainsString objectStorageDestinations n \<or> ContainsString warehouseDestinations n \<or>
    ContainsString asyncDestinations n) \<longleftrightarrow> n \<in> set batchDestinations\<close>
  by (auto simp: ContainsString_def batchDestinations_def)

lemma startsOf_append [simp]: \<open>startsOf n (xs @ ys) = startsOf n xs @ startsOf n ys\<close>
  by (simp add: startsOf_def)

lemma startsOf_Nil [simp]: \<open>startsOf n [] = []\<close>
  by (simp add: startsOf_def)

lemma startsOf_Nil_iff:
  \<open>startsOf n xs = [] \<longleftrightarrow> RouterStart n \<notin> set xs \<and> BatchRouterStart n \<notin> set xs\<close>
  by (auto simp: startsOf_def filter_empty_conv)

lemma startsOf_batch_pair:
  \<open>startsOf n [BatchRouterNew m, BatchRouterStart m] = (if n = m then [BatchRouterStart m] else [])\<close>
  by (simp add: startsOf_def)

lemma startsOf_router_pair:
  \<open>startsOf n [RouterNew d, RouterStart m] = (if n = m then [RouterStart m] else [])\<close>
  by (simp add: startsOf_def)

lemma managerInv_enabledDestinations [simp]:
  \<open>managerInv (st\<lparr> enabledDestinations := e \<rparr>) = managerInv st\<close>
  by (simp add: managerInv_def)

lemma managerInv_router:
  \<open>managerInv st \<Longrightarrow> (dstToRouter st n = None) = (RouterStart n \<notin> set (ops st))\<close>
  by (simp add: managerInv_def)

lemma managerInv_batch:
  \<open>managerInv st \<Longrightarrow> (dstToBatchRouter st n = None) = (BatchRouterStart n \<notin> set (ops st))\<close>
  by (simp add: managerInv_def)

lemma startDestination_batch_new:
  assumes \<open>definitionName d \<in> set batchDestinations\<close>
    and \<open>dstToBatchRouter st (definitionName d) = None\<close>
  shows \<open>startDestination st d =
    st\<lparr> enabledDestinations := (enabledDestinations st)(definitionName d \<mapsto> True),
        ops := ops st @ [BatchRouterNew (definitionName d), BatchRouterStart (definitionName d)],
        cleanup := cleanup st @ [BatchRouterShutdown (definitionName d)],
        dstToBatchRouter := (dstToBatchRouter st)(definitionName d \<mapsto> definitionName d) \<rparr>\<close>
  using assms by (simp add: startDestination_def Let_def isBatch_iff definitionName_def)

lemma startDestination_batch_old:
  assumes \<open>definitionName d \<in> set batchDestinations\<close>
    and \<open>dstToBatchRouter st (definitionName d) = Some h\<close>
  shows \<open>startDestination st d =
    st\<lparr> enabledDestinations := (enabledDestinations st)(definitionName d \<mapsto> True) \<rparr>\<close>
  using assms by (simp add: startDestination_def Let_def isBatch_iff definitionName_def)

lemma startDestination_router_new:
  assumes \<open>definitionName d \<notin> set batchDestinations\<close>
    and \<open>dstToRouter st (definitionName d) = None\<close>
  shows \<open>startDestination st d =
    st\<lparr> enabledDestinations := (enabledDestinations st)(definitionName d \<mapsto> True),
        ops := ops st @ [RouterNew (DestinationDefinition d), RouterStart (definitionName d)],
        cleanup := cleanup st @ [RouterShutdown (definitionName d)],
        dstToRouter := (dstToRouter st)(definitionName d \<mapsto> DestinationDefinition d) \<rparr>\<close>
  using assms by (simp add: startDestination_def Let_def isBatch_iff definitionName_def)

lemma startDestination_router_old:
  assumes \<open>definitionName d \<notin> set batchDestinations\<close>
    and \<open>dstToRouter st (definitionName d) = Some h\<close>
  shows \<open>startDestination st d =
    st\<lparr> enabledDestinations := (enabledDestinations st)(definitionName d \<mapsto> True) \<rparr>\<close>
  using assms by (simp add: startDestination_def Let_def isBatch_iff definitionName_def)

lemma startDestination_inv:
  assumes inv: \<open>managerInv st\<close>
  shows \<open>managerInv (startDestination st d) \<and>
         startedNames (ops (startDestination st d)) = insert (definitionName d) (startedNames (ops st))\<close>
proof (cases \<open>definitionName d \<in> set batchDestinations\<close>)
  case batch: True
  show ?thesis
  proof (cases \<open>dstToBatchRouter st (definitionName d)\<close>)
    case None
    then have notin: \<open>BatchRouterStart (definitionName d) \<notin> set (ops st)\<close>
      using managerInv_batch [OF inv, of \<open>definitionName d\<close>] by simp
    have notin': \<open>RouterStart (definitionName d) \<notin> set (ops st)\<close>
      using inv batch by (auto simp: managerInv_def)
    have empty: \<open>startsOf (definitionName d) (ops st) = []\<close>
      using notin notin' by (simp add: startsOf_Nil_iff)
    show ?thesis
      unfolding startDestination_batch_new [OF batch None]
      using inv batch empty
      by (auto simp: managerInv_def startedNames_def startsOf_batch_pair)
  next
    case (Some h)
    then have \<open>BatchRouterStart (definitionName d) \<in> set (ops st)\<close>
      using managerInv_batch [OF inv, of \<open>definitionName d\<close>] by simp
    then show ?thesis
      unfolding startDestination_batch_old [OF batch Some]
      using inv by (auto simp: startedNames_def)
  qed
next
  case router: False
  show ?thesis
  proof (cases \<open>dstToRouter st (definitionName d)\<close>)
    case None
    then have notin: \<open>RouterStart (definitionName d) \<notin> set (ops st)\<close>
      using managerInv_router [OF inv, of \<open>definitionName d\<close>] by simp
    have notin': \<open>BatchRouterStart (definitionName d) \<notin> set (ops st)\<close>
      using inv router by (auto simp: managerInv_def)
    have empty: \<open>startsOf (definitionName d) (ops st) = []\<close>
      using notin notin' by (simp add: startsOf_Nil_iff)
    show ?thesis
      unfolding startDestination_router_new [OF router None]
      using inv router empty
      by (auto simp: managerInv_def startedNames_def startsOf_router_pair)
  next
    case (Some h)
    then have \<open>RouterStart (definitionName d) \<in> set (ops st)\<close>
      using managerInv_router [OF inv, of \<open>definitionName d\<close>] by simp
    then show ?thesis
      unfolding startDestination_router_old [OF router Some]
      using inv by (auto simp: startedNames_def)
  qed
qed

lemma startDestinations_inv:
  \<open>managerInv st \<Longrightarrow>
   managerInv (startDestinations st ds) \<and>
   startedNames (ops (startDestinations st ds)) = startedNames (ops st) \<union> definitionName ` set ds\<close>
proof (induction ds arbitrary: st)
  case Nil
  then show ?case by simp
next
  case (Cons d ds)
  from startDestination_inv [OF Cons.prems, of d]
  have inv: \<open>managerInv (startDestination st d)\<close>
    and names: \<open>startedNames (ops (startDestination st d)) =
                 insert (definitionName d) (startedNames (ops st))\<close>
    by simp_all
  from Cons.IH [OF inv] names show ?case by auto
qed

lemma startSources_inv:
  \<open>managerInv st \<Longrightarrow>
   managerInv (startSources st srcs) \<and>
   startedNames (ops (startSources st srcs)) =
     startedNames (ops st) \<union> definitionName ` set (concat (map Destinations srcs))\<close>
proof (induction srcs arbitrary: st)
  case Nil
  then show ?case by simp
next
  case (Cons s srcs)
  from startDestinations_inv [OF Cons.prems, of \<open>Destinations s\<close>]
  have inv: \<open>managerInv (startDestinations st (Destinations s))\<close>
    and names: \<open>startedNames (ops (startDestinations st (Destinations s))) =
                 startedNames (ops st) \<union> definitionName ` set (Destinations s)\<close>
    by simp_all
  from Cons.IH [OF inv] names show ?case by auto
qed

lemma handleConfig_inv:
  assumes \<open>managerInv st\<close>
  shows \<open>managerInv (handleConfig st config) \<and>
         startedNames (ops (handleConfig st config)) =
           startedNames (ops st) \<union> definitionName ` set (destinationsOf config)\<close>
  using startSources_inv [of \<open>st\<lparr> enabledDestinations := Map.empty \<rparr>\<close> \<open>Sources config\<close>] assms
  by (simp add: handleConfig_def destinationsOf_def)

lemma monitorLoop_inv:
  \<open>managerInv st \<Longrightarrow>
   managerInv (fst (monitorLoop st events)) \<and>
   startedNames (ops (fst (monitorLoop st events))) =
     startedNames (ops st) \<union>
     (\<Union>config \<in> set (configsHandled events). definitionName ` set (destinationsOf config))\<close>
proof (induction st events rule: monitorLoop.induct)
  case (4 st config events)
  from handleConfig_inv [OF "4.prems", of config]
  have inv: \<open>managerInv (handleConfig st config)\<close>
    and names: \<open>startedNames (ops (handleConfig st config)) =
                 startedNames (ops st) \<union> definitionName ` set (destinationsOf config)\<close>
    by simp_all
  from "4.IH" [OF inv] names show ?case by auto
qed simp_all


lemma initialState_inv: \<open>managerInv initialState\<close>
  by (simp add: managerInv_def initialState_def startsOf_def)

lemma initialState_started: \<open>startedNames (ops initialState) = {}\<close>
  by (simp add: startedNames_def initialState_def)

lemma monitorDestRouters_alt:
  \<open>monitorDestRouters events =
     ops (fst (monitorLoop initialState events)) @
     (if snd (monitorLoop initialState events)
      then cleanup (fst (monitorLoop initialState events)) else [])\<close>
  by (simp add: monitorDestRouters_def initialState_def split: prod.split)

lemma cleanup_no_start:
  assumes \<open>managerInv st\<close>
  shows \<open>RouterStart n \<notin> set (cleanup st)\<close> and \<open>BatchRouterStart n \<notin> set (cleanup st)\<close>
    and \<open>startsOf n (cleanup st) = []\<close>
proof -
  have all: \<open>\<forall>op \<in> set (cleanup st). \<not> isStartup op\<close>
    using assms by (simp add: managerInv_def)
  show r: \<open>RouterStart n \<notin> set (cleanup st)\<close>
  proof
    assume \<open>RouterStart n \<in> set (cleanup st)\<close>
    with all have \<open>\<not> isStartup (RouterStart n)\<close> by blast
    then show False by simp
  qed
  show b: \<open>BatchRouterStart n \<notin> set (cleanup st)\<close>
  proof
    assume \<open>BatchRouterStart n \<in> set (cleanup st)\<close>
    with all have \<open>\<not> isStartup (BatchRouterStart n)\<close> by blast
    then show False by simp
  qed
  from r b show \<open>startsOf n (cleanup st) = []\<close> by (simp add: startsOf_Nil_iff)
qed

lemma monitorDestRouters_starts:
  \<open>startsOf n (monitorDestRouters events) = startsOf n (ops (fst (monitorLoop initialState events)))\<close>
  using cleanup_no_start(3) [OF monitorLoop_inv [OF initialState_inv, THEN conjunct1], of n events]
  by (simp add: monitorDestRouters_alt)

lemma final_started:
  \<open>startedNames (ops (fst (monitorLoop initialState events))) =
     (\<Union>config \<in> set (configsHandled events). definitionName ` set (destinationsOf config))\<close>
  using monitorLoop_inv [OF initialState_inv, of events] by (simp add: initialState_started)

lemma startsOf_shape:
  assumes \<open>length (startsOf n trace) \<le> 1\<close>
  shows \<open>startsOf n trace =
    (if BatchRouterStart n \<in> set trace then [BatchRouterStart n]
     else if RouterStart n \<in> set trace then [RouterStart n] else [])\<close>
proof (cases \<open>startsOf n trace\<close>)
  case Nil
  then show ?thesis by (simp add: startsOf_Nil_iff)
next
  case (Cons x xs)
  with assms have xs: \<open>xs = []\<close> by simp
  have \<open>x \<in> set (startsOf n trace)\<close> using Cons by simp
  then have x: \<open>x = RouterStart n \<or> x = BatchRouterStart n\<close> and mem: \<open>x \<in> set trace\<close>
    by (simp_all add: startsOf_def)
  have only: \<open>set (startsOf n trace) = {x}\<close> using Cons xs by simp
  show ?thesis
  proof (cases \<open>BatchRouterStart n \<in> set trace\<close>)
    case True
    then have \<open>BatchRouterStart n \<in> set (startsOf n trace)\<close> by (simp add: startsOf_def)
    with only have \<open>x = BatchRouterStart n\<close> by simp
    with Cons xs True show ?thesis by simp
  next
    case False
    with x mem have \<open>x = RouterStart n\<close> by auto
    with Cons xs False mem show ?thesis by simp
  qed
qed

text \<open>
  C4. Whatever the manager receives, for every destination definition name the starts of
  a router of either flavour in the trace are: none when no configuration handled lists
  a destination of that name, and otherwise exactly one, however many sources and
  configurations list it; that one is a batch router when the name is in the
  object-storage, warehouse or async list and a standard router when it is not.
\<close>

theorem C4_one_router_per_name:
  \<open>startsOf n (monitorDestRouters events) =
     (if \<exists>config \<in> set (configsHandled events).
           \<exists>destination \<in> set (destinationsOf config). definitionName destination = n
      then [if n \<in> set (objectStorageDestinations @ warehouseDestinations @ asyncDestinations)
            then BatchRouterStart n else RouterStart n]
      else [])\<close>
proof -
  let ?st = \<open>fst (monitorLoop initialState events)\<close>
  have inv: \<open>managerInv ?st\<close>
    using monitorLoop_inv [OF initialState_inv, of events] by simp
  then have len: \<open>length (startsOf n (ops ?st)) \<le> 1\<close>
    and batch: \<open>BatchRouterStart n \<in> set (ops ?st) \<Longrightarrow> n \<in> set batchDestinations\<close>
    and router: \<open>RouterStart n \<in> set (ops ?st) \<Longrightarrow> n \<notin> set batchDestinations\<close>
    by (simp_all add: managerInv_def)
  have seen: \<open>(RouterStart n \<in> set (ops ?st) \<or> BatchRouterStart n \<in> set (ops ?st)) \<longleftrightarrow>
      (\<exists>config \<in> set (configsHandled events).
         \<exists>destination \<in> set (destinationsOf config). definitionName destination = n)\<close>
  proof -
    have \<open>n \<in> startedNames (ops ?st) \<longleftrightarrow>
        n \<in> (\<Union>config \<in> set (configsHandled events). definitionName ` set (destinationsOf config))\<close>
      by (simp only: final_started)
    then show ?thesis by (auto simp: startedNames_def)
  qed
  have \<open>startsOf n (monitorDestRouters events) = startsOf n (ops ?st)\<close>
    by (rule monitorDestRouters_starts)
  also have \<open>\<dots> = (if BatchRouterStart n \<in> set (ops ?st) then [BatchRouterStart n]
     else if RouterStart n \<in> set (ops ?st) then [RouterStart n] else [])\<close>
    by (rule startsOf_shape [OF len])
  also have \<open>\<dots> = (if \<exists>config \<in> set (configsHandled events).
           \<exists>destination \<in> set (destinationsOf config). definitionName destination = n
      then [if n \<in> set batchDestinations then BatchRouterStart n else RouterStart n]
      else [])\<close>
    using seen batch router by auto
  finally show ?thesis by (simp add: batchDestinations_def)
qed

lemma exampleEvents_trace:
  \<open>monitorDestRouters exampleEvents =
   [DeleteExecuting RouterDB, DeleteExecuting BatchRouterDB,
    RouterNew (DestinationDefinition (exampleDestination ''d1'' ''GA'' True)), RouterStart ''GA'',
    BatchRouterNew ''S3'', BatchRouterStart ''S3'',
    RouterShutdown ''GA'', BatchRouterShutdown ''S3'']\<close>
  by (simp add: exampleEvents_def monitorDestRouters_def handleConfig_def startDestination_def
      ContainsString_def objectStorageDestinations_def warehouseDestinations_def
      asyncDestinations_def exampleSource_def exampleDestination_def Let_def)

theorem C5_crash_recovery_first_witness:
  \<open>3 < length (monitorDestRouters exampleEvents) \<and>
   isStartup (monitorDestRouters exampleEvents ! 3) \<and>
   (\<exists>j < 3. monitorDestRouters exampleEvents ! j = DeleteExecuting RouterDB) \<and>
   (\<exists>k < 3. monitorDestRouters exampleEvents ! k = DeleteExecuting BatchRouterDB)\<close>
proof -
  have len: \<open>3 < length (monitorDestRouters exampleEvents)\<close>
    and startup: \<open>isStartup (monitorDestRouters exampleEvents ! 3)\<close>
    by (simp_all add: exampleEvents_trace)
  from C5_crash_recovery_first [of exampleEvents, rule_format, OF len startup] len startup
  show ?thesis by blast
qed

theorem C4_one_router_per_name_witness:
  \<open>startsOf ''GA'' (monitorDestRouters exampleEvents) = [RouterStart ''GA''] \<and>
   startsOf ''S3'' (monitorDestRouters exampleEvents) = [BatchRouterStart ''S3''] \<and>
   startsOf ''BQ'' (monitorDestRouters exampleEvents) = []\<close>
  using C4_one_router_per_name [of \<open>''GA''\<close> exampleEvents]
    C4_one_router_per_name [of \<open>''S3''\<close> exampleEvents]
    C4_one_router_per_name [of \<open>''BQ''\<close> exampleEvents]
  by (simp add: exampleEvents_trace startsOf_def)

lemma startDestination_Enabled:
  \<open>startDestination st (destination\<lparr> DestinationT.Enabled := b \<rparr>) = startDestination st destination\<close>
  by (simp add: startDestination_def Let_def split: option.split)

lemma startDestinations_Enabled:
  \<open>startDestinations st
      (map (\<lambda>destination. destination\<lparr> DestinationT.Enabled := flag destination \<rparr>) ds) =
    startDestinations st ds\<close>
  by (induction ds arbitrary: st) (simp_all add: startDestination_Enabled)

lemma startSources_Enabled:
  \<open>startSources st
      (map (\<lambda>source. source\<lparr> Destinations :=
              map (\<lambda>destination. destination\<lparr> DestinationT.Enabled := flag destination \<rparr>)
                (Destinations source) \<rparr>) srcs) =
    startSources st srcs\<close>
  by (induction srcs arbitrary: st) (simp_all add: startDestinations_Enabled)

lemma handleConfig_Enabled:
  \<open>handleConfig st (withEnabled flag config) = handleConfig st config\<close>
  by (simp add: handleConfig_def withEnabled_def startSources_Enabled)

lemma monitorLoop_Enabled:
  \<open>monitorLoop st (map (eventWithEnabled flag) events) = monitorLoop st events\<close>
  by (induction st events rule: monitorLoop.induct) (simp_all add: handleConfig_Enabled)

lemma monitorDestRouters_member:
  \<open>RouterStart n \<in> set (monitorDestRouters events) \<or>
   BatchRouterStart n \<in> set (monitorDestRouters events) \<longleftrightarrow>
   n \<in> startedNames (ops (fst (monitorLoop initialState events)))\<close>
  using cleanup_no_start(1,2) [OF monitorLoop_inv [OF initialState_inv, THEN conjunct1], of n events]
  by (auto simp: monitorDestRouters_alt startedNames_def)

text \<open>
  C3. Whatever the manager receives, a router or batch router is started for a
  destination definition name exactly when a configuration it handles lists a
  destination of that name under some source; the destination's \<open>Enabled\<close> flag is not
  consulted: setting the flags of all destinations anew leaves the whole trace unchanged.
  A destination that is not enabled therefore starts its router like any other, which
  the last theorem of this group evaluates.
\<close>

theorem C3_routers_for_listed_destinations:
  \<open>((RouterStart n \<in> set (monitorDestRouters events) \<or>
      BatchRouterStart n \<in> set (monitorDestRouters events)) \<longleftrightarrow>
     (\<exists>config \<in> set (configsHandled events).
        \<exists>destination \<in> set (destinationsOf config). definitionName destination = n)) \<and>
   monitorDestRouters (map (eventWithEnabled flag) events) = monitorDestRouters events\<close>
proof
  have \<open>n \<in> startedNames (ops (fst (monitorLoop initialState events))) \<longleftrightarrow>
      n \<in> (\<Union>config \<in> set (configsHandled events). definitionName ` set (destinationsOf config))\<close>
    by (simp only: final_started)
  then show \<open>(RouterStart n \<in> set (monitorDestRouters events) \<or>
      BatchRouterStart n \<in> set (monitorDestRouters events)) \<longleftrightarrow>
     (\<exists>config \<in> set (configsHandled events).
        \<exists>destination \<in> set (destinationsOf config). definitionName destination = n)\<close>
    unfolding monitorDestRouters_member by auto
  show \<open>monitorDestRouters (map (eventWithEnabled flag) events) = monitorDestRouters events\<close>
    by (simp add: monitorDestRouters_def monitorLoop_Enabled)
qed

theorem C3_routers_for_listed_destinations_witness:
  \<open>RouterStart ''GA'' \<in> set (monitorDestRouters exampleEvents) \<and>
   BatchRouterStart ''S3'' \<in> set (monitorDestRouters exampleEvents) \<and>
   RouterStart ''BQ'' \<notin> set (monitorDestRouters exampleEvents) \<and>
   BatchRouterStart ''BQ'' \<notin> set (monitorDestRouters exampleEvents) \<and>
   monitorDestRouters (map (eventWithEnabled (\<lambda>d. False)) exampleEvents) =
     monitorDestRouters exampleEvents\<close>
  using C3_routers_for_listed_destinations [of \<open>''BQ''\<close> exampleEvents \<open>\<lambda>d. False\<close>]
  by (simp add: exampleEvents_trace)

theorem C3_disabled_destination_counterexample:
  \<open>DestinationT.Enabled (exampleDestination ''d1'' ''GA'' False) = False \<and>
   RouterStart ''GA'' \<in> set (monitorDestRouters
     [ConfigEvent \<lparr> Sources = [exampleSource ''s1'' [exampleDestination ''d1'' ''GA'' False]] \<rparr>])\<close>
  by (simp add: monitorDestRouters_def handleConfig_def startDestination_def
      ContainsString_def objectStorageDestinations_def warehouseDestinations_def
      asyncDestinations_def exampleSource_def exampleDestination_def Let_def)

section \<open>Properties of the router's handling of expired jobs\<close>

lemma pickupLoop_eq:
  \<open>pickupLoop now r jobs acc =
     \<lparr> drainList = drainList acc @ map (expiredStatus now) (filter (isExpired now r) jobs),
       toWorkers = toWorkers acc @ filter (\<lambda>j. \<not> isExpired now r j) jobs \<rparr>\<close>
  by (induction jobs arbitrary: acc) simp_all

text \<open>
  C1. Of the jobs of a pickup, every job whose age exceeds \<open>jobRetention\<close> gets a row in
  the drain list that is Aborted, with error code \<open>410\<close>, reason \<open>job expired\<close> and the
  attempt number of the job's last status; and the job is not handed to any worker, so
  the destination adapter is not invoked for it.
\<close>

theorem C1_expired_jobs_aborted:
  assumes \<open>job \<in> set jobs\<close> and \<open>jobRetention < now - CreatedAt job\<close>
  shows \<open>(\<exists>status \<in> set (drainList (readAndProcess now jobRetention jobs)).
            JobStatusT.JobID status = JobT.JobID job \<and>
            JobState status = Aborted \<and>
            ErrorCode status = ''410'' \<and>
            ErrorResponse status = ''{"reason": "job expired"}'' \<and>
            AttemptNum status = AttemptNum (LastJobStatus job)) \<and>
         job \<notin> set (toWorkers (readAndProcess now jobRetention jobs))\<close>
proof
  have expired: \<open>isExpired now jobRetention job\<close>
    using assms(2) by (simp add: isExpired_def)
  with assms(1) have \<open>expiredStatus now job
      \<in> set (drainList (readAndProcess now jobRetention jobs))\<close>
    by (simp add: readAndProcess_def pickupLoop_eq)
  then show \<open>\<exists>status \<in> set (drainList (readAndProcess now jobRetention jobs)).
           JobStatusT.JobID status = JobT.JobID job \<and>
           JobState status = Aborted \<and>
           ErrorCode status = ''410'' \<and>
           ErrorResponse status = ''{"reason": "job expired"}'' \<and>
           AttemptNum status = AttemptNum (LastJobStatus job)\<close>
    by (rule rev_bexI) (simp add: expiredStatus_def)
  show \<open>job \<notin> set (toWorkers (readAndProcess now jobRetention jobs))\<close>
    using expired by (simp add: readAndProcess_def pickupLoop_eq)
qed

theorem C1_expired_jobs_aborted_witness:
  \<open>(\<exists>status \<in> set (drainList (readAndProcess 25 24 [exampleJob 2010 0 ''{}''])).
      JobStatusT.JobID status = 2010 \<and>
      JobState status = Aborted \<and>
      ErrorCode status = ''410'' \<and>
      ErrorResponse status = ''{"reason": "job expired"}'' \<and>
      AttemptNum status = 0) \<and>
   exampleJob 2010 0 ''{}'' \<notin> set (toWorkers (readAndProcess 25 24 [exampleJob 2010 0 ''{}''])) \<and>
   length (toWorkers (readAndProcess 25 24 [exampleJob 2010 0 ''{}''])) = 0\<close>
proof -
  have age: \<open>(24 :: int) < 25 - CreatedAt (exampleJob 2010 0 ''{}'')\<close>
    by (simp add: exampleJob_def)
  have fields: \<open>JobT.JobID (exampleJob 2010 0 ''{}'') = 2010\<close>
    \<open>AttemptNum (LastJobStatus (exampleJob 2010 0 ''{}'')) = 0\<close>
    by (simp_all add: exampleJob_def)
  have none: \<open>length (toWorkers (readAndProcess 25 24 [exampleJob 2010 0 ''{}''])) = 0\<close>
    by (simp add: readAndProcess_def isExpired_def exampleJob_def)
  from C1_expired_jobs_aborted [of \<open>exampleJob 2010 0 ''{}''\<close> \<open>[exampleJob 2010 0 ''{}'']\<close> 24 25,
      OF _ age] none
  show ?thesis unfolding fields by simp
qed

section \<open>Properties of the per-customer queues\<close>

lemma groupByCustomer_lookup:
  \<open>groupByCustomer jobs m c =
     (case m c of
        None \<Rightarrow> if c \<in> Customer ` set jobs
                 then Some (filter (\<lambda>j. Customer j = c) jobs) else None
      | Some l \<Rightarrow> Some (l @ filter (\<lambda>j. Customer j = c) jobs))\<close>
proof (induction jobs arbitrary: m)
  case Nil
  show ?case by (simp split: option.split)
next
  case (Cons job jobs)
  show ?case
    by (simp add: Cons.IH Let_def split: option.split)
qed

lemma groupByCustomer_empty:
  \<open>groupByCustomer jobList Map.empty c =
     (if c \<in> Customer ` set jobList
      then Some (filter (\<lambda>j. Customer j = c) jobList) else None)\<close>
  by (simp add: groupByCustomer_lookup)

lemma getQueueForCustomer_known:
  assumes \<open>queue \<in> {''gw'', ''rt'', ''batch_rt'', ''proc_error''}\<close>
    and \<open>customerQueues customer = Some q\<close>
  shows \<open>\<exists>db. getQueueForCustomer customerQueues customer queue = Inr db\<close>
  using assms by (auto simp: getQueueForCustomer_def)

lemma storeRange_calls:
  assumes known: \<open>queue \<in> {''gw'', ''rt'', ''batch_rt'', ''proc_error''}\<close>
    and registered: \<open>\<forall>c \<in> set order. customerQueues c \<noteq> None\<close>
    and keys: \<open>\<forall>c \<in> set order. m c \<noteq> None\<close>
  shows \<open>\<exists>more. storeRange customerQueues queue m order calls = Inr (calls @ more) \<and>
           length more = length order \<and>
           (\<forall>i < length order.
              getQueueForCustomer customerQueues (order ! i) queue = Inr (fst (more ! i)) \<and>
              m (order ! i) = Some (snd (more ! i)))\<close>
  using registered keys
proof (induction order arbitrary: calls)
  case Nil
  show ?case by simp
next
  case (Cons c order)
  obtain q where q: \<open>customerQueues c = Some q\<close> using Cons.prems(1) by auto
  obtain list where list: \<open>m c = Some list\<close> using Cons.prems(2) by auto
  obtain db where db: \<open>getQueueForCustomer customerQueues c queue = Inr db\<close>
    using getQueueForCustomer_known [of queue customerQueues c q] known q by blast
  from Cons.IH [of \<open>calls @ [(db, list)]\<close>] Cons.prems
  obtain more where more:
    \<open>storeRange customerQueues queue m order (calls @ [(db, list)]) =
       Inr ((calls @ [(db, list)]) @ more)\<close>
    \<open>length more = length order\<close>
    \<open>\<forall>i < length order.
        getQueueForCustomer customerQueues (order ! i) queue = Inr (fst (more ! i)) \<and>
        m (order ! i) = Some (snd (more ! i))\<close>
    by auto
  have step: \<open>storeRange customerQueues queue m (c # order) calls =
      Inr (calls @ (db, list) # more)\<close>
    using list db more(1) by (simp add: StoreJobsForCustomer_def JobsDB_Store_def)
  have \<open>\<forall>i < length (c # order).
      getQueueForCustomer customerQueues ((c # order) ! i) queue =
        Inr (fst (((db, list) # more) ! i)) \<and>
      m ((c # order) ! i) = Some (snd (((db, list) # more) ! i))\<close>
  proof (intro allI impI)
    fix i
    assume \<open>i < length (c # order)\<close>
    then show \<open>getQueueForCustomer customerQueues ((c # order) ! i) queue =
        Inr (fst (((db, list) # more) ! i)) \<and>
      m ((c # order) ! i) = Some (snd (((db, list) # more) ! i))\<close>
      using db list more(3) by (cases i) simp_all
  qed
  with step more(2) show ?case by (intro exI [of _ \<open>(db, list) # more\<close>]) simp
qed

lemma mset_by_customer:
  assumes \<open>distinct order\<close>
  shows \<open>mset (concat (map (\<lambda>c. filter (\<lambda>j. Customer j = c) jobList) order)) =
         mset (filter (\<lambda>j. Customer j \<in> set order) jobList)\<close>
  using assms
proof (induction order)
  case Nil
  show ?case by simp
next
  case (Cons c order)
  then have \<open>c \<notin> set order\<close> and \<open>distinct order\<close> by simp_all
  with Cons.IH show ?case
    by (auto simp: multiset_eq_iff)
qed


text \<open>
  C10. For a queue type among \<open>gw\<close>, \<open>rt\<close>, \<open>batch_rt\<close> and \<open>proc_error\<close>, a
  job list in which each job's customer is registered, and whatever order the map of
  customers is ranged over, \<open>Store\<close> returns nil after exactly one store call per
  customer of the list. The call is made on the job store that the customer's own
  registered \<open>CustomerQueue\<close> holds for the requested type (\<open>GatewayJobsdb\<close> for
  \<open>gw\<close>, \<open>RouterJobsdb\<close> for \<open>rt\<close>, \<open>BatchrouterJobsddb\<close> for \<open>batch_rt\<close>,
  \<open>ProcerrorJobsdb\<close> for \<open>proc_error\<close>), with exactly that customer's jobs; so
  every job is stored exactly once, and jobs of different customers are never stored
  together. With any other queue type \<open>getQueueForCustomer\<close> panics, which the last
  theorem of this group evaluates.
\<close>

theorem C10_store_by_customer:
  assumes known: \<open>queue \<in> {''gw'', ''rt'', ''batch_rt'', ''proc_error''}\<close>
    and registered: \<open>\<forall>job \<in> set jobList. customerQueues (Customer job) \<noteq> None\<close>
    and order: \<open>distinct order\<close> \<open>set order = Customer ` set jobList\<close>
  shows \<open>\<exists>calls.
           Store customerQueues order jobList queue = Inr (None, calls) \<and>
           length calls = length order \<and>
           (\<forall>i < length order.
              (\<exists>q. customerQueues (order ! i) = Some q \<and>
                   (queue = ''gw'' \<longrightarrow> fst (calls ! i) = GatewayJobsdb q) \<and>
                   (queue = ''rt'' \<longrightarrow> fst (calls ! i) = RouterJobsdb q) \<and>
                   (queue = ''batch_rt'' \<longrightarrow> fst (calls ! i) = BatchrouterJobsddb q) \<and>
                   (queue = ''proc_error'' \<longrightarrow> fst (calls ! i) = ProcerrorJobsdb q)) \<and>
              snd (calls ! i) = filter (\<lambda>j. Customer j = order ! i) jobList) \<and>
           mset (concat (map snd calls)) = mset jobList\<close>
proof -
  let ?m = \<open>groupByCustomer jobList Map.empty\<close>
  have reg: \<open>\<forall>c \<in> set order. customerQueues c \<noteq> None\<close>
    using registered order(2) by auto
  have keys: \<open>\<forall>c \<in> set order. ?m c \<noteq> None\<close>
    using order(2) by (simp add: groupByCustomer_empty)
  from storeRange_calls [OF known reg keys, of \<open>[]\<close>]
  obtain calls where run: \<open>storeRange customerQueues queue ?m order [] = Inr calls\<close>
    and len: \<open>length calls = length order\<close>
    and each: \<open>\<forall>i < length order.
        getQueueForCustomer customerQueues (order ! i) queue = Inr (fst (calls ! i)) \<and>
        ?m (order ! i) = Some (snd (calls ! i))\<close>
    by auto
  have lists: \<open>snd (calls ! i) = filter (\<lambda>j. Customer j = order ! i) jobList\<close>
    if \<open>i < length order\<close> for i
  proof -
    from that have mem: \<open>order ! i \<in> Customer ` set jobList\<close>
      using order(2) nth_mem by blast
    from each that have \<open>?m (order ! i) = Some (snd (calls ! i))\<close> by blast
    with mem show ?thesis by (simp add: groupByCustomer_empty)
  qed
  have fields: \<open>\<exists>q. customerQueues (order ! i) = Some q \<and>
      (queue = ''gw'' \<longrightarrow> fst (calls ! i) = GatewayJobsdb q) \<and>
      (queue = ''rt'' \<longrightarrow> fst (calls ! i) = RouterJobsdb q) \<and>
      (queue = ''batch_rt'' \<longrightarrow> fst (calls ! i) = BatchrouterJobsddb q) \<and>
      (queue = ''proc_error'' \<longrightarrow> fst (calls ! i) = ProcerrorJobsdb q)\<close>
    if \<open>i < length order\<close> for i
  proof -
    from that reg obtain q where q: \<open>customerQueues (order ! i) = Some q\<close>
      using nth_mem by blast
    from each that
    have \<open>getQueueForCustomer customerQueues (order ! i) queue = Inr (fst (calls ! i))\<close>
      by blast
    with q show ?thesis
      by (auto simp: getQueueForCustomer_def split: if_splits)
  qed
  have \<open>map snd calls = map (\<lambda>c. filter (\<lambda>j. Customer j = c) jobList) order\<close>
    using len lists by (intro nth_equalityI) simp_all
  then have \<open>mset (concat (map snd calls)) =
      mset (filter (\<lambda>j. Customer j \<in> set order) jobList)\<close>
    using mset_by_customer [OF order(1)] by simp
  also have \<open>filter (\<lambda>j. Customer j \<in> set order) jobList = jobList\<close>
    using order(2) by (simp add: filter_id_conv)
  finally have all: \<open>mset (concat (map snd calls)) = mset jobList\<close> .
  have \<open>Store customerQueues order jobList queue = Inr (None, calls)\<close>
    using run by (simp add: Store_def)
  with len fields lists all show ?thesis by blast
qed

theorem C10_store_by_customer_witness:
  \<open>Store exampleQueues [''beta'', ''acme'']
      [customerJob ''acme'' 1, customerJob ''beta'' 2, customerJob ''acme'' 3] ''batch_rt'' =
     Inr (None, [(''beta/batch_rt'', [customerJob ''beta'' 2]),
                 (''acme/batch_rt'', [customerJob ''acme'' 1, customerJob ''acme'' 3])]) \<and>
   exampleQueues ''beta'' =
     Some \<lparr> GatewayJobsdb = ''beta/gw'', RouterJobsdb = ''beta/rt'',
            BatchrouterJobsddb = ''beta/batch_rt'', ProcerrorJobsdb = ''beta/proc_error'' \<rparr> \<and>
   exampleQueues ''acme'' =
     Some \<lparr> GatewayJobsdb = ''acme/gw'', RouterJobsdb = ''acme/rt'',
            BatchrouterJobsddb = ''acme/batch_rt'', ProcerrorJobsdb = ''acme/proc_error'' \<rparr>\<close>
proof -
  have cust: \<open>Customer (customerJob c n) = c\<close> for c n
    by (simp add: customerJob_def)
  have known: \<open>''batch_rt'' \<in> {''gw'', ''rt'', ''batch_rt'', ''proc_error''}\<close>
    by simp
  have registered:
    \<open>\<forall>job \<in> set [customerJob ''acme'' 1, customerJob ''beta'' 2, customerJob ''acme'' 3].
        exampleQueues (Customer job) \<noteq> None\<close>
    by (simp add: cust exampleQueues_def)
  have order: \<open>distinct [''beta'', ''acme'']\<close>
    \<open>set [''beta'', ''acme''] =
       Customer ` set [customerJob ''acme'' 1, customerJob ''beta'' 2, customerJob ''acme'' 3]\<close>
    by (auto simp: cust)
  from C10_store_by_customer [OF known registered order]
  show ?thesis
    by (simp add: Store_def StoreJobsForCustomer_def JobsDB_Store_def getQueueForCustomer_def
        exampleQueues_def cust Let_def)
qed

theorem C10_unknown_queue_counterexample:
  \<open>exampleQueues (Customer (customerJob ''acme'' 1)) \<noteq> None \<and>
   Store exampleQueues [''acme''] [customerJob ''acme'' 1] ''archive'' =
     Inl (PanicErr ''Unknow queue'')\<close>
  by (simp add: Store_def StoreJobsForCustomer_def JobsDB_Store_def getQueueForCustomer_def
      exampleQueues_def customerJob_def Let_def)

end
